theory Spec2Isabelle
  imports Complex_Main
begin

section \<open>Python values and exceptions\<close>

text \<open>
  The two modules compute with floating-point numbers. The model computes with exact
  real and complex numbers; rounding is not modelled. What is modelled of the
  floating-point behaviour is where it changes the control flow or the kind of result:
  a Python \<^verbatim>\<open>float\<close> division by zero raises \<^verbatim>\<open>ZeroDivisionError\<close>, and a numpy
  division by zero returns \<^verbatim>\<open>nan\<close> (or a complex \<^verbatim>\<open>inf+nanj\<close> that later operations
  turn into \<^verbatim>\<open>nan\<close>), which is the value \<open>None\<close> of an \<open>option\<close> below.
\<close>

datatype py_error = KeyError | IndexError | ZeroDivisionError | ValueError

definition bind_result :: "py_error + 'a \<Rightarrow> ('a \<Rightarrow> py_error + 'b) \<Rightarrow> py_error + 'b" where
  "bind_result m f = (case m of Inl e \<Rightarrow> Inl e | Inr x \<Rightarrow> f x)"

section \<open>lennard\_jones.py: the class LennardJones\<close>

subsection \<open>The data\<close>

text \<open>
  A row of \<^verbatim>\<open>ddec_data\<close> is the Python list
  \<^verbatim>\<open>[atom number, atom type, x, y, z, charge, ..., vol]\<close>: entry 1 is the element,
  entry 5 the charge and the last entry the AIM volume. The coordinates and dipoles
  are read by none of the methods modelled here and are left out of the record.
\<close>

record ddec_atom =
  atom_number :: int
  atom_type :: string
  charge :: real
  vol :: real

text \<open>
  \<^verbatim>\<open>append_ais_bis\<close> extends every row in place by \<^verbatim>\<open>[r_aim, b_i, a_i]\<close>; from then on
  \<^verbatim>\<open>atom[-3]\<close>, \<^verbatim>\<open>atom[-2]\<close> and \<^verbatim>\<open>atom[-1]\<close> are these three fields.
\<close>

record lj_atom = ddec_atom +
  r_aim :: real
  b_i :: real
  a_i :: real

text \<open>
  \<^verbatim>\<open>non_bonded_force\<close> is a dict from the atom's position to
  \<^verbatim>\<open>[str(charge), str(sigma), str(epsilon)]\<close>. The strings are the \<^verbatim>\<open>repr\<close> of the
  floats and are read back with \<^verbatim>\<open>float\<close>, which returns the same number, so the
  model keeps the numbers.
\<close>

type_synonym nbf_entry = "real \<times> real \<times> real"
type_synonym nbf_table = "int \<rightharpoonup> nbf_entry"

definition nb_charge :: "nbf_entry \<Rightarrow> real" where
  "nb_charge e = fst e"

definition nb_sigma :: "nbf_entry \<Rightarrow> real" where
  "nb_sigma e = fst (snd e)"

definition nb_epsilon :: "nbf_entry \<Rightarrow> real" where
  "nb_epsilon e = snd (snd e)"

definition sigma_conversion :: real where
  "sigma_conversion = 0.1"

definition epsilon_conversion :: real where
  "epsilon_conversion = 57.65240039"

subsection \<open>append\_ais\_bis\<close>

text \<open>\<^verbatim>\<open>elem_dict\<close>: element \<open>\<mapsto>\<close> \<^verbatim>\<open>[vfree, bfree, rfree]\<close>.\<close>

definition elem_dict :: "string \<rightharpoonup> real \<times> real \<times> real" where
  "elem_dict = map_of
     [(''H'', (7.6, 6.5, 1.64)),
      (''C'', (34.4, 46.6, 2.08)),
      (''N'', (25.9, 24.2, 1.72)),
      (''O'', (22.1, 15.6, 1.60)),
      (''F'', (18.2, 9.5, 1.58)),
      (''S'', (75.2, 134.0, 2.00)),
      (''Cl'', (65.1, 94.6, 1.88)),
      (''Br'', (95.7, 162.0, 1.96))]"

text \<open>
  One pass of the loop body. An element that is no key of \<^verbatim>\<open>elem_dict\<close> raises
  \<^verbatim>\<open>KeyError\<close>. The power \<^verbatim>\<open>x ** (1 / 3)\<close> is \<open>x powr (1 / 3)\<close>, which agrees with
  Python for \<open>x \<ge> 0\<close> (an AIM volume is never negative).
\<close>

definition append_ai_bi :: "ddec_atom \<Rightarrow> py_error + lj_atom" where
  "append_ai_bi atom =
     (case elem_dict (atom_type atom) of
        None \<Rightarrow> Inl KeyError
      | Some (vfree, bfree, rfree) \<Rightarrow>
          let r_aim' = rfree * ((vol atom / vfree) powr (1 / 3));
              b_i' = bfree * ((vol atom / vfree) ^ 2);
              a_i' = 32 * b_i' * (r_aim' ^ 6)
          in Inr \<lparr>atom_number = atom_number atom, atom_type = atom_type atom,
                   charge = charge atom, vol = vol atom,
                   r_aim = r_aim', b_i = b_i', a_i = a_i'\<rparr>)"

fun append_ais_bis :: "ddec_atom list \<Rightarrow> py_error + lj_atom list" where
  "append_ais_bis [] = Inr []"
| "append_ais_bis (atom # rest) =
     bind_result (append_ai_bi atom) (\<lambda>atom'.
       bind_result (append_ais_bis rest) (\<lambda>rest'. Inr (atom' # rest')))"

subsection \<open>calculate\_sig\_eps\<close>

text \<open>
  The body of the loop computes \<open>(sigma, epsilon)\<close> of one atom;
  \<open>calculate_sig_eps_from pos\<close> is the loop
  \<^verbatim>\<open>for pos, atom in enumerate(self.ddec_data)\<close> from position \<open>pos\<close> on. The
  division \<^verbatim>\<open>atom[-1] / atom[-2]\<close> of two Python floats raises when \<open>b_i\<close> is zero; the
  divisor \<^verbatim>\<open>4 * atom[-1]\<close> is not zero in the branch that divides by it.
\<close>

definition sig_eps :: "lj_atom \<Rightarrow> py_error + real \<times> real" where
  "sig_eps atom =
     (if a_i atom = 0 then Inr (0, 0)
      else if b_i atom = 0 then Inl ZeroDivisionError
      else
        let sigma = (a_i atom / b_i atom) powr (1 / 6) * sigma_conversion;
            epsilon = (b_i atom) ^ 2 / (4 * a_i atom) * epsilon_conversion
        in Inr (sigma, epsilon))"

fun calculate_sig_eps_from :: "nat \<Rightarrow> lj_atom list \<Rightarrow> nbf_table \<Rightarrow> py_error + nbf_table" where
  "calculate_sig_eps_from pos [] nbf = Inr nbf"
| "calculate_sig_eps_from pos (atom # rest) nbf =
     bind_result (sig_eps atom) (\<lambda>(sigma, epsilon).
       calculate_sig_eps_from (Suc pos) rest (nbf(int pos \<mapsto> (charge atom, sigma, epsilon))))"

definition calculate_sig_eps :: "lj_atom list \<Rightarrow> nbf_table \<Rightarrow> py_error + nbf_table" where
  "calculate_sig_eps ddec_data nbf = calculate_sig_eps_from 0 ddec_data nbf"

subsection \<open>correct\_polar\_hydrogens\<close>

text \<open>
  A row of \<^verbatim>\<open>molecule.molecule['input']\<close> is \<^verbatim>\<open>[element, x, y, z]\<close>; the topology's
  edges are pairs of atom numbers that count from 1.
\<close>

type_synonym mol_atom = "string \<times> real \<times> real \<times> real"

text \<open>\<^verbatim>\<open>list.index\<close> of an element of the list: the first position that holds it.\<close>

fun index_of :: "'a list \<Rightarrow> 'a \<Rightarrow> nat" where
  "index_of [] x = 0"
| "index_of (y # ys) x = (if y = x then 0 else Suc (index_of ys x))"

text \<open>
  The dict comprehension
  \<^verbatim>\<open>{input.index(atom) + 1: atom[0] for atom in input}\<close>: each row stores its element
  under (the first position of an equal row) + 1, a later row overwriting an earlier key.
\<close>

definition positions :: "mol_atom list \<Rightarrow> int \<rightharpoonup> string" where
  "positions inp = fold (\<lambda>atom m. m(int (index_of inp atom) + 1 \<mapsto> fst atom)) inp Map.empty"

text \<open>
  The string \<^verbatim>\<open>str(n) + element\<close> of \<^verbatim>\<open>new_pairs\<close> is kept as the pair \<open>(n, element)\<close>.
  \<^verbatim>\<open>'H' in s\<close> tests whether the letter occurs in the string; the digits and the sign
  of \<^verbatim>\<open>str(n)\<close> are none of the letters tested, so the test is one on the element.
\<close>

type_synonym label = "int \<times> string"

definition contains :: "char \<Rightarrow> label \<Rightarrow> bool" where
  "contains c l = (c \<in> set (snd l))"

definition new_pair :: "(int \<rightharpoonup> string) \<Rightarrow> int \<times> int \<Rightarrow> py_error + label \<times> label" where
  "new_pair pos pair =
     (case pos (fst pair) of
        None \<Rightarrow> Inl KeyError
      | Some t0 \<Rightarrow>
          (case pos (snd pair) of
             None \<Rightarrow> Inl KeyError
           | Some t1 \<Rightarrow> Inr ((fst pair, t0), (snd pair, t1))))"

fun new_pairs :: "(int \<rightharpoonup> string) \<Rightarrow> (int \<times> int) list \<Rightarrow> py_error + (label \<times> label) list" where
  "new_pairs pos [] = Inr []"
| "new_pairs pos (pair # rest) =
     bind_result (new_pair pos pair) (\<lambda>np.
       bind_result (new_pairs pos rest) (\<lambda>nps. Inr (np # nps)))"

definition is_son :: "label \<Rightarrow> bool" where
  "is_son l = (contains CHR ''O'' l \<or> contains CHR ''N'' l \<or> contains CHR ''S'' l)"

text \<open>The loop that fills \<^verbatim>\<open>polars\<close>: a pair is appended once for each of the two tests it passes.\<close>

fun find_polars :: "(label \<times> label) list \<Rightarrow> (label \<times> label) list" where
  "find_polars [] = []"
| "find_polars (pair # rest) =
     (if is_son (fst pair) \<and> contains CHR ''H'' (snd pair) then [pair] else []) @
     (if is_son (snd pair) \<and> contains CHR ''H'' (fst pair) then [pair] else []) @
     find_polars rest"

text \<open>
  \<^verbatim>\<open>int(s[:-1]) - 1\<close>: the string without its last character is \<^verbatim>\<open>str(n)\<close> when the
  element has one letter; with a longer (alphabetic) element a letter is left in the
  string and \<^verbatim>\<open>int\<close> raises \<^verbatim>\<open>ValueError\<close>. Every label of \<^verbatim>\<open>polars\<close> has an element
  of at least one letter.
\<close>

definition label_pos :: "label \<Rightarrow> py_error + int" where
  "label_pos l = (if length (snd l) = 1 then Inr (fst l - 1) else Inl ValueError)"

text \<open>
  Indexing a Python list of length \<open>n\<close> with \<open>i\<close>: a negative index counts from the end,
  an index outside the list raises \<^verbatim>\<open>IndexError\<close>.
\<close>

definition py_index :: "nat \<Rightarrow> int \<Rightarrow> py_error + nat" where
  "py_index n i =
     (if 0 \<le> i \<and> i < int n then Inr (nat i)
      else if - int n \<le> i \<and> i < 0 then Inr (nat (i + int n))
      else Inl IndexError)"

text \<open>
  The body of \<^verbatim>\<open>for pair in polars\<close>: the two positions are read off the labels
  (\<open>polar_positions\<close>), the two rows are looked up (\<open>polar_indices\<close>), and
  \<^verbatim>\<open>ddec_data[polar_son_pos][-2] += ddec_data[polar_h_pos][-2]\<close>, then
  \<^verbatim>\<open>ddec_data[polar_h_pos][-2] = 0\<close> (\<open>move_b\<close>).
\<close>

definition polar_positions :: "label \<times> label \<Rightarrow> py_error + int \<times> int" where
  "polar_positions pair =
     (if contains CHR ''H'' (fst pair) then
        bind_result (label_pos (fst pair)) (\<lambda>polar_h_pos.
          bind_result (label_pos (snd pair)) (\<lambda>polar_son_pos. Inr (polar_h_pos, polar_son_pos)))
      else
        bind_result (label_pos (snd pair)) (\<lambda>polar_h_pos.
          bind_result (label_pos (fst pair)) (\<lambda>polar_son_pos. Inr (polar_h_pos, polar_son_pos))))"

definition move_b :: "nat \<Rightarrow> nat \<Rightarrow> lj_atom list \<Rightarrow> lj_atom list" where
  "move_b h son ddec =
     (let ddec1 = ddec[son := (ddec ! son)\<lparr>b_i := b_i (ddec ! son) + b_i (ddec ! h)\<rparr>]
      in ddec1[h := (ddec1 ! h)\<lparr>b_i := 0\<rparr>])"

definition polar_indices :: "nat \<Rightarrow> label \<times> label \<Rightarrow> py_error + nat \<times> nat" where
  "polar_indices n pair =
     bind_result (polar_positions pair) (\<lambda>(polar_h_pos, polar_son_pos).
       bind_result (py_index n polar_son_pos) (\<lambda>son.
         bind_result (py_index n polar_h_pos) (\<lambda>h. Inr (h, son))))"

definition redistribute :: "label \<times> label \<Rightarrow> lj_atom list \<Rightarrow> py_error + lj_atom list" where
  "redistribute pair ddec =
     (if contains CHR ''H'' (fst pair) \<or> contains CHR ''H'' (snd pair) then
        bind_result (polar_indices (length ddec) pair) (\<lambda>(h, son). Inr (move_b h son ddec))
      else Inr ddec)"

fun redistribute_all :: "(label \<times> label) list \<Rightarrow> lj_atom list \<Rightarrow> py_error + lj_atom list" where
  "redistribute_all [] ddec = Inr ddec"
| "redistribute_all (pair # rest) ddec =
     bind_result (redistribute pair ddec) (\<lambda>ddec'. redistribute_all rest ddec')"


text \<open>
  The last loop. \<open>new_entry atom old\<close> is what its body stores for an atom whose entry
  was \<open>old\<close>: where the new \<open>a_i\<close> is zero the stored sigma is overwritten with
  \<^verbatim>\<open>str(0)\<close> and epsilon is 0; elsewhere sigma is kept and epsilon is computed. Both
  branches read \<^verbatim>\<open>self.non_bonded_force[pos]\<close>, which raises \<^verbatim>\<open>KeyError\<close> for a
  position the table does not hold.
\<close>

definition new_entry :: "lj_atom \<Rightarrow> nbf_entry \<Rightarrow> nbf_entry" where
  "new_entry atom old =
     (if a_i atom = 0 then (charge atom, 0, 0)
      else
        let epsilon = (b_i atom) ^ 2 / (4 * a_i atom) * epsilon_conversion
        in (charge atom, nb_sigma old, epsilon))"

fun update_epsilon_from :: "nat \<Rightarrow> lj_atom list \<Rightarrow> nbf_table \<Rightarrow> py_error + nbf_table" where
  "update_epsilon_from pos [] nbf = Inr nbf"
| "update_epsilon_from pos (atom # rest) nbf =
     (case nbf (int pos) of
        None \<Rightarrow> Inl KeyError
      | Some old \<Rightarrow> update_epsilon_from (Suc pos) rest (nbf(int pos \<mapsto> new_entry atom old)))"

text \<open>
  The method: square roots of all \<open>b_i\<close> (\<^verbatim>\<open>x ** 0.5\<close>, the real square root of a
  \<open>b_i\<close> that is never negative), the redistribution, the squares, the new \<open>a_i\<close>, the
  new table. It returns the rows and the table it leaves behind.
\<close>

definition correct_polar_hydrogens ::
  "mol_atom list \<Rightarrow> (int \<times> int) list \<Rightarrow> lj_atom list \<Rightarrow> nbf_table \<Rightarrow>
   py_error + lj_atom list \<times> nbf_table" where
  "correct_polar_hydrogens inp edges ddec nbf =
     bind_result (new_pairs (positions inp) edges) (\<lambda>nps.
       let polars = find_polars nps;
           ddec1 = map (\<lambda>atom. atom\<lparr>b_i := sqrt (b_i atom)\<rparr>) ddec
       in bind_result (redistribute_all polars ddec1) (\<lambda>ddec2.
            let ddec3 = map (\<lambda>atom. atom\<lparr>b_i := b_i atom * b_i atom\<rparr>) ddec2;
                ddec4 = map (\<lambda>atom. atom\<lparr>a_i := 32 * b_i atom * (r_aim atom) ^ 6\<rparr>) ddec3
            in bind_result (update_epsilon_from 0 ddec4 nbf) (\<lambda>nbf'. Inr (ddec4, nbf'))))"

subsection \<open>apply\_symmetrisation\<close>

text \<open>
  \<^verbatim>\<open>molecule.symm_hs\<close> is a dict whose values are lists of atom sets, each a list of
  atom numbers that count from 1. The three lists \<^verbatim>\<open>charges, sigmas, epsilons\<close> are
  created once for each value of the dict and are appended to by every atom set of it.
\<close>

type_synonym sym_lists = "real list \<times> real list \<times> real list"

fun read_values :: "int list \<Rightarrow> nbf_table \<Rightarrow> sym_lists \<Rightarrow> py_error + sym_lists" where
  "read_values [] nbf acc = Inr acc"
| "read_values (atom # rest) nbf (charges, sigmas, epsilons) =
     (case nbf (atom - 1) of
        None \<Rightarrow> Inl KeyError
      | Some e \<Rightarrow>
          read_values rest nbf
            (charges @ [nb_charge e], sigmas @ [nb_sigma e], epsilons @ [nb_epsilon e]))"

fun store_values :: "int list \<Rightarrow> nbf_entry \<Rightarrow> nbf_table \<Rightarrow> nbf_table" where
  "store_values [] e nbf = nbf"
| "store_values (atom # rest) e nbf = store_values rest e (nbf(atom - 1 \<mapsto> e))"

fun symmetrise_sets :: "int list list \<Rightarrow> sym_lists \<Rightarrow> nbf_table \<Rightarrow> py_error + nbf_table" where
  "symmetrise_sets [] acc nbf = Inr nbf"
| "symmetrise_sets (atom_set # rest) acc nbf =
     bind_result (read_values atom_set nbf acc) (\<lambda>(charges, sigmas, epsilons).
       if length charges = 0 then Inl ZeroDivisionError
       else
         let charge' = sum_list charges / real (length charges);
             sigma = sum_list sigmas / real (length sigmas);
             epsilon = sum_list epsilons / real (length epsilons)
         in symmetrise_sets rest (charges, sigmas, epsilons)
              (store_values atom_set (charge', sigma, epsilon) nbf))"

fun apply_symmetrisation :: "int list list list \<Rightarrow> nbf_table \<Rightarrow> py_error + nbf_table" where
  "apply_symmetrisation [] nbf = Inr nbf"
| "apply_symmetrisation (sym_set # rest) nbf =
     bind_result (symmetrise_sets sym_set ([], [], []) nbf) (\<lambda>nbf'.
       apply_symmetrisation rest nbf')"

section \<open>mod\_seminario.py: the class ModSemMaths\<close>

subsection \<open>Vectors and numpy's nan\<close>

text \<open>
  A row of \<^verbatim>\<open>coords\<close> and every unit vector is a numpy array of three floats; an
  eigenvector is one of three complex numbers. A value that numpy may have computed as
  \<^verbatim>\<open>nan\<close> has an \<open>option\<close> type, \<open>None\<close> being \<^verbatim>\<open>nan\<close>: the vectors normalised below are
  \<^verbatim>\<open>nan\<close> in all three entries or in none.
\<close>

type_synonym vec = "real \<times> real \<times> real"
type_synonym cvec = "complex \<times> complex \<times> complex"

definition cross :: "vec \<Rightarrow> vec \<Rightarrow> vec" where
  "cross u v =
     (case u of (u0, u1, u2) \<Rightarrow> case v of (v0, v1, v2) \<Rightarrow>
        (u1 * v2 - u2 * v1, u2 * v0 - u0 * v2, u0 * v1 - u1 * v0))"

definition dot :: "vec \<Rightarrow> vec \<Rightarrow> real" where
  "dot u v = (case u of (u0, u1, u2) \<Rightarrow> case v of (v0, v1, v2) \<Rightarrow> u0 * v0 + u1 * v1 + u2 * v2)"

text \<open>\<^verbatim>\<open>numpy.dot\<close> of a real and a complex vector: no conjugation.\<close>

definition cdot :: "vec \<Rightarrow> cvec \<Rightarrow> complex" where
  "cdot u v =
     (case u of (u0, u1, u2) \<Rightarrow> case v of (v0, v1, v2) \<Rightarrow>
        of_real u0 * v0 + of_real u1 * v1 + of_real u2 * v2)"

definition linalg_norm :: "vec \<Rightarrow> real" where
  "linalg_norm u = sqrt (dot u u)"

definition vsub :: "vec \<Rightarrow> vec \<Rightarrow> vec" where
  "vsub u v = (case u of (u0, u1, u2) \<Rightarrow> case v of (v0, v1, v2) \<Rightarrow> (u0 - v0, u1 - v1, u2 - v2))"

text \<open>
  \<^verbatim>\<open>v / linalg.norm(v)\<close>: dividing the zero vector by its norm 0 gives \<^verbatim>\<open>nan\<close> in every
  entry (with a warning, no exception); a vector of norm 0 is the zero vector.
\<close>

definition normalise :: "vec \<Rightarrow> vec option" where
  "normalise v =
     (if linalg_norm v = 0 then None
      else case v of (v0, v1, v2) \<Rightarrow>
        Some (v0 / linalg_norm v, v1 / linalg_norm v, v2 / linalg_norm v))"

text \<open>Arithmetic that passes \<^verbatim>\<open>nan\<close> on; a numpy division by zero gives \<^verbatim>\<open>nan\<close>.\<close>

definition nan_add :: "'a::plus option \<Rightarrow> 'a option \<Rightarrow> 'a option" where
  "nan_add a b = (case a of None \<Rightarrow> None | Some x \<Rightarrow> (case b of None \<Rightarrow> None | Some y \<Rightarrow> Some (x + y)))"

definition nan_div :: "'a::field option \<Rightarrow> 'a option \<Rightarrow> 'a option" where
  "nan_div a b =
     (case a of
        None \<Rightarrow> None
      | Some x \<Rightarrow> (case b of None \<Rightarrow> None | Some y \<Rightarrow> if y = 0 then None else Some (x / y)))"

subsection \<open>The static methods\<close>

definition unit_vector_n :: "vec option \<Rightarrow> vec option \<Rightarrow> vec option" where
  "unit_vector_n u_bc u_ab =
     (case u_bc of
        None \<Rightarrow> None
      | Some u \<Rightarrow> (case u_ab of None \<Rightarrow> None | Some v \<Rightarrow> normalise (cross u v)))"

text \<open>
  \<^verbatim>\<open>coords[atom, :]\<close> indexes a numpy array with as many rows as the molecule has atoms:
  \<open>py_index\<close>, which raises \<^verbatim>\<open>IndexError\<close>.
\<close>

definition vector_along_bond :: "vec list \<Rightarrow> int \<Rightarrow> int \<Rightarrow> py_error + vec option" where
  "vector_along_bond coords atom_a atom_b =
     bind_result (py_index (length coords) atom_b) (\<lambda>b.
       bind_result (py_index (length coords) atom_a) (\<lambda>a.
         Inr (normalise (vsub (coords ! b) (coords ! a)))))"

definition u_pa_from_angles :: "int \<Rightarrow> int \<Rightarrow> int \<Rightarrow> vec list \<Rightarrow> py_error + vec option" where
  "u_pa_from_angles atom_a atom_b atom_c coords =
     bind_result (vector_along_bond coords atom_a atom_b) (\<lambda>u_ab.
       bind_result (vector_along_bond coords atom_c atom_b) (\<lambda>u_cb.
         let u_n = unit_vector_n u_cb u_ab
         in Inr (unit_vector_n u_n u_ab)))"

definition dot_product :: "vec \<Rightarrow> cvec \<Rightarrow> complex" where
  "dot_product u_pa eig_ab =
     (case u_pa of (u0, u1, u2) \<Rightarrow> case eig_ab of (e0, e1, e2) \<Rightarrow>
        of_real u0 * cnj e0 + of_real u1 * cnj e1 + of_real u2 * cnj e2)"

text \<open>
  The eigen-cache of \<^verbatim>\<open>modified_seminario_method\<close>: \<^verbatim>\<open>eigenvals[a, b, i]\<close> and
  \<^verbatim>\<open>eigenvecs[row, column, a, b]\<close>, complex arrays with one 3x3 block for every ordered
  pair of atoms, and the real array \<^verbatim>\<open>bond_lens[a, b]\<close>. They are functions of atom
  positions that \<open>py_index\<close> has resolved against the number of atoms. A block's
  eigenvector \<open>i\<close> is its column \<open>i\<close>: \<^verbatim>\<open>eigenvecs_ab[:, i]\<close>.
\<close>

type_synonym eigenvals = "nat \<Rightarrow> nat \<Rightarrow> nat \<Rightarrow> complex"
type_synonym eigenvecs = "nat \<Rightarrow> nat \<Rightarrow> nat \<Rightarrow> nat \<Rightarrow> complex"
type_synonym bond_lens = "nat \<Rightarrow> nat \<Rightarrow> real"
type_synonym block_vals = "nat \<Rightarrow> complex"
type_synonym block_vecs = "nat \<Rightarrow> nat \<Rightarrow> complex"

definition vals_of :: "eigenvals \<Rightarrow> nat \<Rightarrow> nat \<Rightarrow> block_vals" where
  "vals_of eigenvals a b = (\<lambda>i. eigenvals a b i)"

definition vecs_of :: "eigenvecs \<Rightarrow> nat \<Rightarrow> nat \<Rightarrow> block_vecs" where
  "vecs_of eigenvecs a b = (\<lambda>row col. eigenvecs row col a b)"

definition column :: "block_vecs \<Rightarrow> nat \<Rightarrow> cvec" where
  "column eigenvecs_ab i = (eigenvecs_ab 0 i, eigenvecs_ab 1 i, eigenvecs_ab 2 i)"

definition force_constant_bond ::
  "int \<Rightarrow> int \<Rightarrow> eigenvals \<Rightarrow> eigenvecs \<Rightarrow> vec list \<Rightarrow> py_error + complex option" where
  "force_constant_bond atom_a atom_b eigenvals eigenvecs coords =
     bind_result (py_index (length coords) atom_a) (\<lambda>a.
       bind_result (py_index (length coords) atom_b) (\<lambda>b.
         let eigenvals_ab = vals_of eigenvals a b;
             eigenvecs_ab = vecs_of eigenvecs a b
         in bind_result (vector_along_bond coords atom_a atom_b) (\<lambda>unit_vectors_ab.
              Inr (map_option
                (\<lambda>u. - 0.5 * sum_list (map (\<lambda>i. eigenvals_ab i *
                        of_real (cmod (cdot u (column eigenvecs_ab i)))) [0, 1, 2]))
                unit_vectors_ab))))"

text \<open>
  The sum \<^verbatim>\<open>sum(eigenvals[i] * abs(dot_product(u, eigenvecs[:, i])) for i in range(3))\<close>
  that both angle functions compute, for \<open>u_pa\<close> and for \<open>u_pc\<close>.
\<close>

definition projected_sum :: "block_vals \<Rightarrow> block_vecs \<Rightarrow> vec option \<Rightarrow> complex option" where
  "projected_sum eigenvals_ab eigenvecs_ab u_pa =
     map_option
       (\<lambda>u. sum_list (map (\<lambda>i. eigenvals_ab i *
               of_real (cmod (dot_product u (column eigenvecs_ab i)))) [0, 1, 2]))
       u_pa"

text \<open>
  The two springs in series, in OPLS form:
  \<^verbatim>\<open>k = 1 / (len_ab ** 2 * sum_first) + 1 / (len_bc ** 2 * sum_second)\<close>,
  \<^verbatim>\<open>k = 1 / k\<close>, \<^verbatim>\<open>abs(k * 0.5)\<close>. The sums are complex; a complex division by zero
  ends in \<^verbatim>\<open>nan\<close>.
\<close>

definition springs_in_series :: "real \<Rightarrow> complex option \<Rightarrow> real \<Rightarrow> complex option \<Rightarrow> real option" where
  "springs_in_series bond_len_ab sum_first bond_len_bc sum_second =
     (let k_theta =
            nan_add
              (nan_div (Some 1) (map_option (\<lambda>s. of_real (bond_len_ab ^ 2) * s) sum_first))
              (nan_div (Some 1) (map_option (\<lambda>s. of_real (bond_len_bc ^ 2) * s) sum_second));
          k_theta' = nan_div (Some 1) k_theta
      in map_option (\<lambda>k. cmod (k * 0.5)) k_theta')"

text \<open>
  \<^verbatim>\<open>math.acos\<close> raises \<^verbatim>\<open>ValueError\<close> outside \<open>[-1, 1]\<close> and returns \<^verbatim>\<open>nan\<close> for \<^verbatim>\<open>nan\<close>;
  \<^verbatim>\<open>math.degrees\<close> multiplies by \<open>180 / pi\<close>.
\<close>

definition py_acos :: "real option \<Rightarrow> py_error + real option" where
  "py_acos x =
     (case x of
        None \<Rightarrow> Inr None
      | Some y \<Rightarrow> if - 1 \<le> y \<and> y \<le> 1 then Inr (Some (arccos y)) else Inl ValueError)"

definition degrees :: "real \<Rightarrow> real" where
  "degrees x = x * 180 / pi"

definition nan_dot :: "vec option \<Rightarrow> vec option \<Rightarrow> real option" where
  "nan_dot u v = (case u of None \<Rightarrow> None | Some a \<Rightarrow> (case v of None \<Rightarrow> None | Some b \<Rightarrow> Some (dot a b)))"

text \<open>
  \<^verbatim>\<open>f_c_a_special_case\<close>. The loop variable \<^verbatim>\<open>theta\<close> runs over \<^verbatim>\<open>range(n_samples)\<close>,
  the integers 0 to 199, and is the argument of \<^verbatim>\<open>sin\<close> and \<^verbatim>\<open>cos\<close> as it is:
  \<open>sample_angle\<close> is the angle of a sample.
\<close>

definition n_samples :: nat where
  "n_samples = 200"

definition sample_angle :: "nat \<Rightarrow> real" where
  "sample_angle theta = real theta"

definition sample_u_n :: "nat \<Rightarrow> vec" where
  "sample_u_n theta =
     (sin (sample_angle theta) * cos (sample_angle theta),
      sin (sample_angle theta) * sin (sample_angle theta),
      cos (sample_angle theta))"

text \<open>The body of the loop for a trial normal \<open>u_n\<close>: the trial force constant.\<close>

definition trial_k_theta ::
  "vec option \<Rightarrow> vec option \<Rightarrow> real \<times> real \<Rightarrow> block_vals \<times> block_vals \<Rightarrow>
   block_vecs \<times> block_vecs \<Rightarrow> vec \<Rightarrow> real option" where
  "trial_k_theta u_ab u_cb bond_lens eigenvals eigenvecs u_n =
     (let u_pa = unit_vector_n (Some u_n) u_ab;
          u_pc = unit_vector_n u_cb (Some u_n);
          sum_first = projected_sum (fst eigenvals) (fst eigenvecs) u_pa;
          sum_second = projected_sum (snd eigenvals) (snd eigenvecs) u_pc
      in springs_in_series (fst bond_lens) sum_first (snd bond_lens) sum_second)"

definition sample_k_theta ::
  "vec option \<Rightarrow> vec option \<Rightarrow> real \<times> real \<Rightarrow> block_vals \<times> block_vals \<Rightarrow>
   block_vecs \<times> block_vecs \<Rightarrow> nat \<Rightarrow> real option" where
  "sample_k_theta u_ab u_cb bond_lens eigenvals eigenvecs theta =
     trial_k_theta u_ab u_cb bond_lens eigenvals eigenvecs (sample_u_n theta)"

text \<open>The loop over \<^verbatim>\<open>theta\<close>, which writes \<^verbatim>\<open>k_theta_array[theta]\<close>, from the given \<open>theta\<close> on.\<close>

function fill_k_theta_array ::
  "vec option \<Rightarrow> vec option \<Rightarrow> real \<times> real \<Rightarrow> block_vals \<times> block_vals \<Rightarrow>
   block_vecs \<times> block_vecs \<Rightarrow> nat \<Rightarrow> real option list \<Rightarrow> real option list" where
  "fill_k_theta_array u_ab u_cb bond_lens eigenvals eigenvecs theta k_theta_array =
     (if theta < n_samples then
        fill_k_theta_array u_ab u_cb bond_lens eigenvals eigenvecs (Suc theta)
          (k_theta_array[theta := sample_k_theta u_ab u_cb bond_lens eigenvals eigenvecs theta])
      else k_theta_array)"
  by pat_completeness auto
termination
  by (relation "measure (\<lambda>(u_ab, u_cb, bond_lens, eigenvals, eigenvecs, theta, arr). n_samples - theta)") auto

declare fill_k_theta_array.simps [simp del]

text \<open>\<^verbatim>\<open>numpy.average\<close> of a non-empty float array: the sum over the number of entries.\<close>

definition average :: "real option list \<Rightarrow> real option" where
  "average xs = nan_div (foldr nan_add xs (Some 0)) (Some (real (length xs)))"

definition f_c_a_special_case ::
  "vec option \<Rightarrow> vec option \<Rightarrow> real \<times> real \<Rightarrow> block_vals \<times> block_vals \<Rightarrow>
   block_vecs \<times> block_vecs \<Rightarrow> py_error + real option \<times> real option" where
  "f_c_a_special_case u_ab u_cb bond_lens eigenvals eigenvecs =
     (let k_theta_array =
            fill_k_theta_array u_ab u_cb bond_lens eigenvals eigenvecs 0
              (replicate n_samples (Some 0));
          k_theta = average k_theta_array
      in bind_result (py_acos (nan_dot u_ab u_cb)) (\<lambda>theta_0. Inr (k_theta, theta_0)))"

text \<open>
  \<^verbatim>\<open>if sum(u_n):\<close> the sum of the three entries of \<open>u_n\<close> is true when it is not zero;
  \<^verbatim>\<open>nan\<close> is not zero.
\<close>

definition sum_is_true :: "vec option \<Rightarrow> bool" where
  "sum_is_true u_n = (case u_n of None \<Rightarrow> True | Some (x, y, z) \<Rightarrow> 0 + x + y + z \<noteq> 0)"

definition force_constant_angle ::
  "int \<Rightarrow> int \<Rightarrow> int \<Rightarrow> bond_lens \<Rightarrow> eigenvals \<Rightarrow> eigenvecs \<Rightarrow> vec list \<Rightarrow>
   real option \<times> real option \<Rightarrow> py_error + real option \<times> real option" where
  "force_constant_angle atom_a atom_b atom_c bond_lens eigenvals eigenvecs coords scalings =
     bind_result (vector_along_bond coords atom_a atom_b) (\<lambda>u_ab.
     bind_result (vector_along_bond coords atom_c atom_b) (\<lambda>u_cb.
     bind_result (py_index (length coords) atom_a) (\<lambda>a.
     bind_result (py_index (length coords) atom_b) (\<lambda>b.
     bind_result (py_index (length coords) atom_c) (\<lambda>c.
       let bond_len_ab = bond_lens a b;
           eigenvals_ab = vals_of eigenvals a b;
           eigenvecs_ab = vecs_of eigenvecs a b;
           bond_len_bc = bond_lens b c;
           eigenvals_cb = vals_of eigenvals c b;
           eigenvecs_cb = vecs_of eigenvecs c b;
           u_n = unit_vector_n u_cb u_ab
       in if sum_is_true u_n then
            f_c_a_special_case u_ab u_cb (bond_len_ab, bond_len_bc)
              (eigenvals_ab, eigenvals_cb) (eigenvecs_ab, eigenvecs_cb)
          else
            let u_pa = unit_vector_n u_n u_ab;
                u_pc = unit_vector_n u_cb u_n;
                sum_first = nan_div (projected_sum eigenvals_ab eigenvecs_ab u_pa)
                              (map_option of_real (fst scalings));
                sum_second = nan_div (projected_sum eigenvals_cb eigenvecs_cb u_pc)
                               (map_option of_real (snd scalings));
                k_theta = springs_in_series bond_len_ab sum_first bond_len_bc sum_second
            in bind_result (py_acos (nan_dot u_ab u_cb)) (\<lambda>theta_0.
                 Inr (k_theta, map_option degrees theta_0)))))))"

section \<open>mod\_seminario.py: the class ModSeminario\<close>

text \<open>
  The two methods write their results to a text file and return them; the model returns
  the numbers \<^verbatim>\<open>k_theta[i], theta_0[i]\<close> and \<^verbatim>\<open>k_b[pos], bond_len_list[pos]\<close> and leaves
  the atom names and the files out. \<open>vib_scaling\<close> is \<^verbatim>\<open>self.qm['vib_scaling']\<close>.
\<close>

subsection \<open>calculate\_angles: the angles around each central atom\<close>

text \<open>
  An angle of \<^verbatim>\<open>angle_list\<close> is a triple of atom numbers that count from 1, the central
  atom in the middle. A row of \<^verbatim>\<open>central_atoms_angles[coord]\<close> is
  \<^verbatim>\<open>[atom, other atom, position of the angle in angle_list]\<close>.
\<close>

type_synonym angle = "int \<times> int \<times> int"
type_synonym ac_row = "int \<times> int \<times> nat"

text \<open>The loop \<^verbatim>\<open>for count, angle in enumerate(angle_list)\<close> for one \<open>coord\<close>, from \<open>count\<close> on.\<close>

fun rows_around :: "int \<Rightarrow> nat \<Rightarrow> angle list \<Rightarrow> ac_row list" where
  "rows_around coord count [] = []"
| "rows_around coord count (angle # rest) =
     (case angle of (a0, a1, a2) \<Rightarrow>
        (if coord = a1 - 1 then [(a0 - 1, a2 - 1, count), (a2 - 1, a0 - 1, count)] else []) @
        rows_around coord (Suc count) rest)"

text \<open>\<^verbatim>\<open>sorted(rows, key=itemgetter(0))\<close> is a stable sort by the first entry, as \<open>sort_key\<close> is.\<close>

definition central_atoms_angles :: "vec list \<Rightarrow> angle list \<Rightarrow> ac_row list list" where
  "central_atoms_angles coords angle_list =
     map (\<lambda>coord. sort_key fst (rows_around (int coord) 0 angle_list)) [0..<length coords]"

fun unit_pa_around :: "vec list \<Rightarrow> int \<Rightarrow> ac_row list \<Rightarrow> py_error + vec option list" where
  "unit_pa_around coords i [] = Inr []"
| "unit_pa_around coords i (row # rest) =
     bind_result (u_pa_from_angles (fst row) i (fst (snd row)) coords) (\<lambda>u_pa.
       bind_result (unit_pa_around coords i rest) (\<lambda>us. Inr (u_pa # us)))"

fun unit_pa_from :: "vec list \<Rightarrow> nat \<Rightarrow> ac_row list list \<Rightarrow> py_error + vec option list list" where
  "unit_pa_from coords i [] = Inr []"
| "unit_pa_from coords i (rows # rest) =
     bind_result (unit_pa_around coords (int i) rows) (\<lambda>us.
       bind_result (unit_pa_from coords (Suc i) rest) (\<lambda>uss. Inr (us # uss)))"

definition unit_pa_all_angles :: "vec list \<Rightarrow> ac_row list list \<Rightarrow> py_error + vec option list list" where
  "unit_pa_all_angles coords central = unit_pa_from coords 0 central"

subsection \<open>calculate\_angles: the scaling factors\<close>

text \<open>
  \<^verbatim>\<open>(abs(dot(unit_pa[j], unit_pa[k]))) ** 2\<close>, and the two \<^verbatim>\<open>while\<close> loops of one row \<open>j\<close>:
  forwards with \<open>n\<close>, backwards with \<open>m\<close>, both adding to \<^verbatim>\<open>extra_contribs\<close>. The counter
  \<^verbatim>\<open>angles_around\<close> is never read and is left out. \<^verbatim>\<open>(j - m) >= 0\<close> is \<open>m \<le> j\<close>.
\<close>

definition contribution :: "vec option list \<Rightarrow> nat \<Rightarrow> nat \<Rightarrow> real option" where
  "contribution unit_pa j k = map_option (\<lambda>d. \<bar>d\<bar> ^ 2) (nan_dot (unit_pa ! j) (unit_pa ! k))"

function forwards :: "ac_row list \<Rightarrow> vec option list \<Rightarrow> nat \<Rightarrow> nat \<Rightarrow> real option \<Rightarrow> nat \<times> real option" where
  "forwards rows unit_pa j n extra_contribs =
     (if j + n < length rows \<and> fst (rows ! j) = fst (rows ! (j + n)) then
        forwards rows unit_pa j (Suc n) (nan_add extra_contribs (contribution unit_pa j (j + n)))
      else (n, extra_contribs))"
  by pat_completeness auto
termination
  by (relation "measure (\<lambda>(rows, unit_pa, j, n, extra_contribs). length rows - (j + n))") auto

declare forwards.simps [simp del]

function backwards :: "ac_row list \<Rightarrow> vec option list \<Rightarrow> nat \<Rightarrow> nat \<Rightarrow> real option \<Rightarrow> nat \<times> real option" where
  "backwards rows unit_pa j m extra_contribs =
     (if m \<le> j \<and> fst (rows ! j) = fst (rows ! (j - m)) then
        backwards rows unit_pa j (Suc m) (nan_add extra_contribs (contribution unit_pa j (j - m)))
      else (m, extra_contribs))"
  by pat_completeness auto
termination
  by (relation "measure (\<lambda>(rows, unit_pa, j, m, extra_contribs). Suc j - m)") auto

declare backwards.simps [simp del]

definition scaling_factor :: "ac_row list \<Rightarrow> vec option list \<Rightarrow> nat \<Rightarrow> real option" where
  "scaling_factor rows unit_pa j =
     (case forwards rows unit_pa j 1 (Some 0) of (n, extra_contribs) \<Rightarrow>
      case backwards rows unit_pa j 1 extra_contribs of (m, extra_contribs') \<Rightarrow>
        if n \<noteq> 1 \<or> m \<noteq> 1 then
          nan_add (Some 1) (nan_div extra_contribs' (Some (real (m + n - 2))))
        else Some 1)"

text \<open>\<^verbatim>\<open>scaling_factor_all_angles[i][j]\<close> is \<^verbatim>\<open>[scaling factor, position in angle list]\<close>.\<close>

definition scaling_factors_around :: "ac_row list \<Rightarrow> vec option list \<Rightarrow> (real option \<times> nat) list" where
  "scaling_factors_around rows unit_pa =
     map (\<lambda>j. (scaling_factor rows unit_pa j, snd (snd (rows ! j)))) [0..<length rows]"

definition scaling_factor_all_angles ::
  "ac_row list list \<Rightarrow> vec option list list \<Rightarrow> (real option \<times> nat) list list" where
  "scaling_factor_all_angles central unit_pa_all =
     map (\<lambda>i. scaling_factors_around (central ! i) (unit_pa_all ! i)) [0..<length central]"

subsection \<open>calculate\_angles: ordering the scaling factors\<close>

text \<open>
  \<^verbatim>\<open>scaling_factors_angles_list = [[]] * len(angle_list)\<close> is a list whose entries all
  refer to one and the same list object. The store keeps, for every entry, the address
  of the object it refers to, and the contents of the objects; \<^verbatim>\<open>[[]] * n\<close> allocates
  one object, at address 0.
\<close>

record shared_lists =
  cells :: "nat list"
  objects :: "nat \<Rightarrow> real option list"

definition repeated_empty_list :: "nat \<Rightarrow> shared_lists" where
  "repeated_empty_list n = \<lparr>cells = replicate n 0, objects = (\<lambda>addr. [])\<rparr>"

text \<open>\<^verbatim>\<open>scaling_factors_angles_list[k].append(v)\<close>\<close>

definition append_at :: "shared_lists \<Rightarrow> nat \<Rightarrow> real option \<Rightarrow> py_error + shared_lists" where
  "append_at st k v =
     (if k < length (cells st) then
        let addr = cells st ! k
        in Inr (st\<lparr>objects := (objects st)(addr := objects st addr @ [v])\<rparr>)
      else Inl IndexError)"

fun order_around :: "(real option \<times> nat) list \<Rightarrow> shared_lists \<Rightarrow> py_error + shared_lists" where
  "order_around [] st = Inr st"
| "order_around (sf # rest) st =
     bind_result (append_at st (snd sf) (fst sf)) (\<lambda>st'. order_around rest st')"

fun order_all :: "(real option \<times> nat) list list \<Rightarrow> shared_lists \<Rightarrow> py_error + shared_lists" where
  "order_all [] st = Inr st"
| "order_all (sfs # rest) st =
     bind_result (order_around sfs st) (\<lambda>st'. order_all rest st')"

text \<open>
  \<^verbatim>\<open>scalings = [scaling_factors_angles_list[i][0], scaling_factors_angles_list[i][1]]\<close>
\<close>

definition scalings_at :: "shared_lists \<Rightarrow> nat \<Rightarrow> py_error + real option \<times> real option" where
  "scalings_at st i =
     (if i < length (cells st) then
        let l = objects st (cells st ! i)
        in if 2 \<le> length l then Inr (l ! 0, l ! 1) else Inl IndexError
      else Inl IndexError)"

text \<open>Everything up to the last loop: the store the last loop reads its \<^verbatim>\<open>scalings\<close> from.\<close>

definition scaling_factors_angles_list :: "vec list \<Rightarrow> angle list \<Rightarrow> py_error + shared_lists" where
  "scaling_factors_angles_list coords angle_list =
     (let central = central_atoms_angles coords angle_list
      in bind_result (unit_pa_all_angles coords central) (\<lambda>unit_pa_all.
           order_all (scaling_factor_all_angles central unit_pa_all)
             (repeated_empty_list (length angle_list))))"

subsection \<open>calculate\_angles: the last loop\<close>

definition nan_mean :: "real option \<Rightarrow> real option \<Rightarrow> real option" where
  "nan_mean x y = nan_div (nan_add x y) (Some 2)"

fun angles_from ::
  "real \<Rightarrow> shared_lists \<Rightarrow> bond_lens \<Rightarrow> eigenvals \<Rightarrow> eigenvecs \<Rightarrow> vec list \<Rightarrow> nat \<Rightarrow> angle list \<Rightarrow>
   py_error + (real option \<times> real option) list" where
  "angles_from vib_scaling st bond_lens eigenvals eigenvecs coords i [] = Inr []"
| "angles_from vib_scaling st bond_lens eigenvals eigenvecs coords i (angle # rest) =
     (case angle of (a0, a1, a2) \<Rightarrow>
        bind_result (scalings_at st i) (\<lambda>scalings.
        bind_result (force_constant_angle (a0 - 1) (a1 - 1) (a2 - 1)
                       bond_lens eigenvals eigenvecs coords scalings) (\<lambda>(ab_k_theta, ab_theta_0).
        bind_result (force_constant_angle (a2 - 1) (a1 - 1) (a0 - 1)
                       bond_lens eigenvals eigenvecs coords (snd scalings, fst scalings))
                    (\<lambda>(ba_k_theta, ba_theta_0).
          let k_theta = map_option (\<lambda>k. vib_scaling ^ 2 * k) (nan_mean ab_k_theta ba_k_theta);
              theta_0 = nan_mean ab_theta_0 ba_theta_0
          in bind_result
               (angles_from vib_scaling st bond_lens eigenvals eigenvecs coords (Suc i) rest)
               (\<lambda>out. Inr ((k_theta, theta_0) # out))))))"

definition calculate_angles ::
  "real \<Rightarrow> angle list \<Rightarrow> bond_lens \<Rightarrow> eigenvals \<Rightarrow> eigenvecs \<Rightarrow> vec list \<Rightarrow>
   py_error + (real option \<times> real option) list" where
  "calculate_angles vib_scaling angle_list bond_lens eigenvals eigenvecs coords =
     bind_result (scaling_factors_angles_list coords angle_list) (\<lambda>st.
       angles_from vib_scaling st bond_lens eigenvals eigenvecs coords 0 angle_list)"

subsection \<open>calculate\_bonds\<close>

text \<open>
  A bond of \<^verbatim>\<open>bond_list\<close> is a pair of atom numbers that count from 1. The reported
  force constant is \<^verbatim>\<open>real((ab + ba) / 2) * vib_scaling ** 2\<close>, the real part of the mean.
\<close>

definition bond_lens_at :: "bond_lens \<Rightarrow> nat \<Rightarrow> int \<Rightarrow> int \<Rightarrow> py_error + real" where
  "bond_lens_at bond_lens n i j =
     bind_result (py_index n i) (\<lambda>a. bind_result (py_index n j) (\<lambda>b. Inr (bond_lens a b)))"

fun calculate_bonds ::
  "real \<Rightarrow> (int \<times> int) list \<Rightarrow> bond_lens \<Rightarrow> eigenvals \<Rightarrow> eigenvecs \<Rightarrow> vec list \<Rightarrow>
   py_error + (real option \<times> real) list" where
  "calculate_bonds vib_scaling [] bond_lens eigenvals eigenvecs coords = Inr []"
| "calculate_bonds vib_scaling (bond # rest) bond_lens eigenvals eigenvecs coords =
     bind_result (force_constant_bond (fst bond - 1) (snd bond - 1) eigenvals eigenvecs coords) (\<lambda>ab.
     bind_result (force_constant_bond (snd bond - 1) (fst bond - 1) eigenvals eigenvecs coords) (\<lambda>ba.
       let k_b = map_option (\<lambda>z. Re z * vib_scaling ^ 2) (nan_div (nan_add ab ba) (Some 2))
       in bind_result (bond_lens_at bond_lens (length coords) (fst bond - 1) (snd bond - 1)) (\<lambda>bond_len.
            bind_result (calculate_bonds vib_scaling rest bond_lens eigenvals eigenvecs coords)
              (\<lambda>out. Inr ((k_b, bond_len) # out)))))"

section \<open>Definitions for the statements, and example inputs\<close>

text \<open>An oxygen with its free-atom volume and a hydrogen of volume zero.\<close>

definition zero_volume_example :: "ddec_atom list" where
  "zero_volume_example =
    [\<lparr>atom_number = 1, atom_type = ''O'', charge = -0.8, vol = 22.1\<rparr>,
     \<lparr>atom_number = 2, atom_type = ''H'', charge = 0.4, vol = 0\<rparr>]"


text \<open>Water: an oxygen bonded to two hydrogens, each atom with its free-atom volume.\<close>

definition water_input :: "mol_atom list" where
  "water_input = [(''O'', 0, 0, 0), (''H'', 1, 0, 0), (''H'', 0, 1, 0)]"

definition water_edges :: "(int \<times> int) list" where
  "water_edges = [(1, 2), (1, 3)]"


text \<open>Two atom sets in one value of \<^verbatim>\<open>symm_hs\<close>, as two amine or two methyl groups are.\<close>

definition two_sets_table :: nbf_table where
  "two_sets_table =
     [0 \<mapsto> (1, 10, 100), 1 \<mapsto> (3, 30, 300), 2 \<mapsto> (5, 50, 500), 3 \<mapsto> (7, 70, 700)]"

text \<open>The rows of water after \<^verbatim>\<open>append_ais_bis\<close>, the table after \<^verbatim>\<open>calculate_sig_eps\<close>, and both after \<^verbatim>\<open>correct_polar_hydrogens\<close>.\<close>

definition water_lj :: "lj_atom list" where
  "water_lj =
    [\<lparr>atom_number = 1, atom_type = ''O'', charge = -0.8, vol = 22.1, r_aim = 1.6, b_i = 15.6, a_i = 32 * 15.6 * 1.6 ^ 6\<rparr>,
     \<lparr>atom_number = 2, atom_type = ''H'', charge = 0.4, vol = 7.6, r_aim = 1.64, b_i = 6.5, a_i = 32 * 6.5 * 1.64 ^ 6\<rparr>,
     \<lparr>atom_number = 3, atom_type = ''H'', charge = 0.4, vol = 7.6, r_aim = 1.64, b_i = 6.5, a_i = 32 * 6.5 * 1.64 ^ 6\<rparr>]"

definition water_nbf :: nbf_table where
  "water_nbf =
     [0 \<mapsto> (-0.8, (32 * 15.6 * 1.6 ^ 6 / 15.6) powr (1 / 6) * sigma_conversion,
                 15.6 ^ 2 / (4 * (32 * 15.6 * 1.6 ^ 6)) * epsilon_conversion),
      1 \<mapsto> (0.4, (32 * 6.5 * 1.64 ^ 6 / 6.5) powr (1 / 6) * sigma_conversion,
                 6.5 ^ 2 / (4 * (32 * 6.5 * 1.64 ^ 6)) * epsilon_conversion),
      2 \<mapsto> (0.4, (32 * 6.5 * 1.64 ^ 6 / 6.5) powr (1 / 6) * sigma_conversion,
                 6.5 ^ 2 / (4 * (32 * 6.5 * 1.64 ^ 6)) * epsilon_conversion)]"

definition water_b_O :: real where
  "water_b_O = (sqrt 15.6 + sqrt 6.5 + sqrt 6.5) * (sqrt 15.6 + sqrt 6.5 + sqrt 6.5)"

definition water_corrected :: "lj_atom list" where
  "water_corrected =
    [\<lparr>atom_number = 1, atom_type = ''O'', charge = -0.8, vol = 22.1, r_aim = 1.6,
      b_i = water_b_O, a_i = 32 * water_b_O * 1.6 ^ 6\<rparr>,
     \<lparr>atom_number = 2, atom_type = ''H'', charge = 0.4, vol = 7.6, r_aim = 1.64, b_i = 0, a_i = 0\<rparr>,
     \<lparr>atom_number = 3, atom_type = ''H'', charge = 0.4, vol = 7.6, r_aim = 1.64, b_i = 0, a_i = 0\<rparr>]"

definition water_nbf' :: nbf_table where
  "water_nbf' = water_nbf
     (0 \<mapsto> (-0.8, (32 * 15.6 * 1.6 ^ 6 / 15.6) powr (1 / 6) * sigma_conversion,
                 water_b_O ^ 2 / (4 * (32 * water_b_O * 1.6 ^ 6)) * epsilon_conversion),
      1 \<mapsto> (0.4, 0, 0),
      2 \<mapsto> (0.4, 0, 0))"

text \<open>
  For the statements below: the eigen-cache with eigenvector \<open>i\<close> (column \<open>i\<close>) of the
  block of the atoms \<open>(p, q)\<close> negated, and a complex vector negated.
\<close>

definition flip_eigenvector :: "eigenvecs \<Rightarrow> nat \<Rightarrow> nat \<Rightarrow> nat \<Rightarrow> eigenvecs" where
  "flip_eigenvector eigenvecs p q i =
     (\<lambda>row col a b. if a = p \<and> b = q \<and> col = i then - eigenvecs row col a b else eigenvecs row col a b)"

definition cneg :: "cvec \<Rightarrow> cvec" where
  "cneg v = (case v of (v0, v1, v2) \<Rightarrow> (- v0, - v1, - v2))"

text \<open>From the spec: k = -0.5 * sum over the three eigenpairs of eigval_i * |dot(u_ab, eigvec_i)|\<close>
definition spec_bond_constant :: "block_vals \<Rightarrow> block_vecs \<Rightarrow> vec \<Rightarrow> complex" where
  "spec_bond_constant eigvals eigvecs u_ab =
     - 0.5 * (\<Sum>i<3. eigvals i * of_real (cmod (cdot u_ab (column eigvecs i))))"

text \<open>Inputs for \<^verbatim>\<open>mod_seminario.py\<close>.\<close>

definition two_atoms :: "vec list" where
  "two_atoms = [(0, 0, 0), (2, 0, 0)]"

definition diagonal_vals :: eigenvals where
  "diagonal_vals = (\<lambda>a b i. if a = b then 6 else - 6)"

definition identity_vecs :: eigenvecs where
  "identity_vecs = (\<lambda>row col a b. if row = col then 1 else 0)"

definition right_angle :: "vec list" where
  "right_angle = [(1, 0, 0), (0, 0, 0), (0, 1, 0)]"

definition linear_along_z :: "vec list" where
  "linear_along_z = [(0, 0, - 1), (0, 0, 0), (0, 0, 1)]"

text \<open>
  For the statements about the scaling factors: a sum that passes \<^verbatim>\<open>nan\<close> on, and the
  spec's reading of the factor.
\<close>

definition nan_sum :: "real option list \<Rightarrow> real option" where
  "nan_sum xs = foldr nan_add xs (Some 0)"

text \<open>From the spec: the other angles sharing the same central atom and the same flanking bond\<close>
definition neighbours :: "ac_row list \<Rightarrow> nat \<Rightarrow> nat list" where
  "neighbours rows j = filter (\<lambda>k. k \<noteq> j \<and> fst (rows ! k) = fst (rows ! j)) [0..<length rows]"

definition squared_dot :: "vec option \<Rightarrow> vec option \<Rightarrow> real option" where
  "squared_dot u v = map_option (\<lambda>d. d ^ 2) (nan_dot u v)"

definition spec_scaling_factor :: "ac_row list \<Rightarrow> vec option list \<Rightarrow> nat \<Rightarrow> real option" where
  "spec_scaling_factor rows unit_pa j =
     (if neighbours rows j = [] then Some 1
      else nan_add (Some 1)
             (nan_div (nan_sum (map (\<lambda>k. squared_dot (unit_pa ! j) (unit_pa ! k)) (neighbours rows j)))
                (Some (real (length (neighbours rows j))))))"

text \<open>
  A central atom 0 with the neighbours 1, 2 and 3, and the two angles 1-0-2 and 1-0-3
  (atom numbers from 1 in the angle list); the rows around atom 0 and their vectors
  \<^verbatim>\<open>unit_pa_all_angles[0]\<close>.
\<close>

definition star :: "vec list" where
  "star = [(0, 0, 0), (1, 0, 0), (0, 1, 0), (0, - 1, 0)]"

definition star_angles :: "angle list" where
  "star_angles = [(2, 1, 3), (2, 1, 4)]"

definition star_rows :: "ac_row list" where
  "star_rows = [(1, 2, 0), (1, 3, 1), (2, 1, 0), (3, 1, 1)]"

definition star_unit_pa :: "vec option list" where
  "star_unit_pa = [Some (0, 1, 0), Some (0, - 1, 0), Some (1, 0, 0), Some (1, 0, 0)]"

section \<open>Properties of lennard\_jones.py\<close>

lemma bind_result_simps [simp]:
  "bind_result (Inl e) f = Inl e"
  "bind_result (Inr x) f = f x"
  by (simp_all add: bind_result_def)

lemma bind_result_eq_Inr:
  "bind_result m f = Inr y \<longleftrightarrow> (\<exists>x. m = Inr x \<and> f x = Inr y)"
  by (cases m) simp_all

lemma append_ai_bi_fields:
  assumes "append_ai_bi atom = Inr atom'"
  shows "charge atom' = charge atom" and "vol atom' = vol atom"
    and "a_i atom' = 32 * b_i atom' * (r_aim atom') ^ 6"
    and "vol atom = 0 \<Longrightarrow> a_i atom' = 0"
  using assms by (auto simp: append_ai_bi_def Let_def split: option.splits)

lemma append_ais_bis_length:
  "append_ais_bis ddec = Inr lj \<Longrightarrow> length lj = length ddec"
  by (induction ddec arbitrary: lj) (auto simp: bind_result_eq_Inr)

lemma append_ais_bis_nth:
  "append_ais_bis ddec = Inr lj \<Longrightarrow> pos < length ddec \<Longrightarrow> append_ai_bi (ddec ! pos) = Inr (lj ! pos)"
proof (induction ddec arbitrary: lj pos)
  case Nil
  then show ?case by simp
next
  case (Cons atom rest)
  from Cons.prems(1) obtain atom' rest' where
    a: "append_ai_bi atom = Inr atom'" and r: "append_ais_bis rest = Inr rest'" and lj: "lj = atom' # rest'"
    by (auto simp: bind_result_eq_Inr)
  show ?case
  proof (cases pos)
    case 0
    with a lj show ?thesis by simp
  next
    case (Suc k)
    with Cons.prems(2) have "k < length rest" by simp
    from Cons.IH [OF r this] Suc lj show ?thesis by simp
  qed
qed

lemma sig_eps_returns:
  "a_i atom = 32 * b_i atom * (r_aim atom) ^ 6 \<Longrightarrow> \<exists>se. sig_eps atom = Inr se"
  by (auto simp: sig_eps_def Let_def)

lemma calculate_sig_eps_from_returns:
  "list_all (\<lambda>atom. a_i atom = 32 * b_i atom * (r_aim atom) ^ 6) lj \<Longrightarrow>
   \<exists>nbf'. calculate_sig_eps_from pos lj nbf = Inr nbf'"
proof (induction lj arbitrary: pos nbf)
  case Nil
  then show ?case by simp
next
  case (Cons atom rest)
  from Cons.prems obtain se where "sig_eps atom = Inr se" using sig_eps_returns [of atom] by auto
  moreover from Cons.prems have "list_all (\<lambda>atom. a_i atom = 32 * b_i atom * (r_aim atom) ^ 6) rest" by simp
  ultimately show ?case using Cons.IH by (cases se) simp
qed

lemma calculate_sig_eps_from_below:
  "calculate_sig_eps_from pos lj nbf = Inr nbf' \<Longrightarrow> k < int pos \<Longrightarrow> nbf' k = nbf k"
proof (induction lj arbitrary: pos nbf)
  case Nil
  then show ?case by simp
next
  case (Cons atom rest)
  from Cons.prems(1) obtain sigma epsilon where
    rest: "calculate_sig_eps_from (Suc pos) rest (nbf(int pos \<mapsto> (charge atom, sigma, epsilon))) = Inr nbf'"
    by (auto simp: bind_result_eq_Inr)
  from Cons.IH [OF rest] Cons.prems(2) show ?case by simp
qed

lemma calculate_sig_eps_from_nth:
  "calculate_sig_eps_from pos lj nbf = Inr nbf' \<Longrightarrow> k < length lj \<Longrightarrow>
   \<exists>sigma epsilon. sig_eps (lj ! k) = Inr (sigma, epsilon) \<and>
      nbf' (int (pos + k)) = Some (charge (lj ! k), sigma, epsilon)"
proof (induction lj arbitrary: pos nbf k)
  case Nil
  then show ?case by simp
next
  case (Cons atom rest)
  from Cons.prems(1) obtain sigma epsilon where
    se: "sig_eps atom = Inr (sigma, epsilon)" and
    rest: "calculate_sig_eps_from (Suc pos) rest (nbf(int pos \<mapsto> (charge atom, sigma, epsilon))) = Inr nbf'"
    by (auto simp: bind_result_eq_Inr)
  show ?case
  proof (cases k)
    case 0
    have "nbf' (int pos) = (nbf(int pos \<mapsto> (charge atom, sigma, epsilon))) (int pos)"
      by (rule calculate_sig_eps_from_below [OF rest]) simp
    with 0 se show ?thesis by simp
  next
    case (Suc j)
    with Cons.prems(2) have "j < length rest" by simp
    from Cons.IH [OF rest this] Suc show ?thesis by simp
  qed
qed

text \<open>
  Claim C8. Whenever \<^verbatim>\<open>append_ais_bis\<close> has extended the rows, \<^verbatim>\<open>calculate_sig_eps\<close>
  completes for the whole molecule (it raises nowhere), and every atom whose AIM volume
  is 0 gets the entry \<open>(charge, 0, 0)\<close>: sigma and epsilon are exactly 0.
\<close>

theorem zero_volume_sig_eps:
  assumes "append_ais_bis ddec = Inr lj"
  shows "\<exists>nbf'. calculate_sig_eps lj nbf = Inr nbf' \<and>
     (\<forall>pos < length ddec. vol (ddec ! pos) = 0 \<longrightarrow>
        nbf' (int pos) = Some (charge (ddec ! pos), 0, 0))"
proof -
  have len: "length lj = length ddec" using assms by (rule append_ais_bis_length)
  have each: "append_ai_bi (ddec ! pos) = Inr (lj ! pos)" if "pos < length ddec" for pos
    using assms that by (rule append_ais_bis_nth)
  have "list_all (\<lambda>atom. a_i atom = 32 * b_i atom * (r_aim atom) ^ 6) lj"
    unfolding list_all_length using each len append_ai_bi_fields(3) by auto
  then obtain nbf' where ret: "calculate_sig_eps lj nbf = Inr nbf'"
    unfolding calculate_sig_eps_def using calculate_sig_eps_from_returns by blast
  have "nbf' (int pos) = Some (charge (ddec ! pos), 0, 0)"
    if pos: "pos < length ddec" and zero: "vol (ddec ! pos) = 0" for pos
  proof -
    from each [OF pos] zero have a0: "a_i (lj ! pos) = 0"
      by (rule append_ai_bi_fields(4))
    from each [OF pos] have ch: "charge (lj ! pos) = charge (ddec ! pos)"
      by (rule append_ai_bi_fields(1))
    from ret pos len obtain sigma epsilon where
      "sig_eps (lj ! pos) = Inr (sigma, epsilon)" and
      "nbf' (int (0 + pos)) = Some (charge (lj ! pos), sigma, epsilon)"
      unfolding calculate_sig_eps_def using calculate_sig_eps_from_nth [of 0 lj nbf nbf' pos] by auto
    with a0 ch show ?thesis by (simp add: sig_eps_def)
  qed
  with ret show ?thesis by blast
qed

lemma elem_dict_simps:
  "elem_dict ''H'' = Some (7.6, 6.5, 1.64)"
  "elem_dict ''O'' = Some (22.1, 15.6, 1.60)"
  by (simp_all add: elem_dict_def)

lemma append_ais_bis_zero_volume_example: "append_ais_bis zero_volume_example = Inr
    [\<lparr>atom_number = 1, atom_type = ''O'', charge = -0.8, vol = 22.1, r_aim = 1.6, b_i = 15.6, a_i = 32 * 15.6 * 1.6 ^ 6\<rparr>,
     \<lparr>atom_number = 2, atom_type = ''H'', charge = 0.4, vol = 0, r_aim = 0, b_i = 0, a_i = 0\<rparr>]"
  by (simp add: zero_volume_example_def append_ai_bi_def elem_dict_simps Let_def)

theorem zero_volume_sig_eps_witness:
  "\<exists>lj nbf'. append_ais_bis zero_volume_example = Inr lj \<and> calculate_sig_eps lj Map.empty = Inr nbf' \<and>
     nbf' 1 = Some (0.4, 0, 0)"
proof -
  from append_ais_bis_zero_volume_example obtain lj where lj: "append_ais_bis zero_volume_example = Inr lj" by blast
  from zero_volume_sig_eps [OF lj, of Map.empty] obtain nbf' where
    ret: "calculate_sig_eps lj Map.empty = Inr nbf'" and
    z: "\<forall>pos < length zero_volume_example. vol (zero_volume_example ! pos) = 0 \<longrightarrow>
        nbf' (int pos) = Some (charge (zero_volume_example ! pos), 0, 0)" by blast
  from z [rule_format, of 1] have "nbf' 1 = Some (0.4, 0, 0)" by (simp add: zero_volume_example_def)
  with lj ret show ?thesis by blast
qed

text \<open>
  Claim C7 fails for the second atom set of a value of \<^verbatim>\<open>symm_hs\<close>: the lists of values
  are not emptied between the atom sets, so atoms 3 and 4 get the mean over all four
  atoms, \<open>(4, 40, 400)\<close>, not the mean \<open>(6, 60, 600)\<close> of their own set.
\<close>

theorem apply_symmetrisation_second_set:
  "map_sum id (\<lambda>nbf'. (nbf' 0, nbf' 1, nbf' 2, nbf' 3))
     (apply_symmetrisation [[[1, 2], [3, 4]]] two_sets_table) =
   Inr (Some (2, 20, 200), Some (2, 20, 200), Some (4, 40, 400), Some (4, 40, 400))"
  by (simp add: two_sets_table_def nb_charge_def nb_sigma_def nb_epsilon_def Let_def)

lemma update_epsilon_from_below:
  "update_epsilon_from pos l nbf = Inr nbf' \<Longrightarrow> k < int pos \<Longrightarrow> nbf' k = nbf k"
proof (induction l arbitrary: pos nbf)
  case Nil
  then show ?case by simp
next
  case (Cons atom rest)
  from Cons.prems(1) obtain e where
    rest: "update_epsilon_from (Suc pos) rest (nbf(int pos \<mapsto> e)) = Inr nbf'"
    by (auto split: option.splits)
  from Cons.IH [OF rest] Cons.prems(2) show ?case by simp
qed

lemma update_epsilon_from_above:
  "update_epsilon_from pos l nbf = Inr nbf' \<Longrightarrow> int (pos + length l) \<le> k \<Longrightarrow> nbf' k = nbf k"
proof (induction l arbitrary: pos nbf)
  case Nil
  then show ?case by simp
next
  case (Cons atom rest)
  from Cons.prems(1) obtain e where
    rest: "update_epsilon_from (Suc pos) rest (nbf(int pos \<mapsto> e)) = Inr nbf'"
    by (auto split: option.splits)
  from Cons.IH [OF rest] Cons.prems(2) show ?case by simp
qed

lemma update_epsilon_from_nth:
  "update_epsilon_from pos l nbf = Inr nbf' \<Longrightarrow> k < length l \<Longrightarrow>
   \<exists>old. nbf (int (pos + k)) = Some old \<and> nbf' (int (pos + k)) = Some (new_entry (l ! k) old)"
proof (induction l arbitrary: pos nbf k)
  case Nil
  then show ?case by simp
next
  case (Cons atom rest)
  from Cons.prems(1) obtain old where
    old: "nbf (int pos) = Some old" and
    rest: "update_epsilon_from (Suc pos) rest (nbf(int pos \<mapsto> new_entry atom old)) = Inr nbf'"
    by (auto split: option.splits)
  show ?case
  proof (cases k)
    case 0
    have "nbf' (int pos) = (nbf(int pos \<mapsto> new_entry atom old)) (int pos)"
      by (rule update_epsilon_from_below [OF rest]) simp
    with 0 old show ?thesis by simp
  next
    case (Suc j)
    with Cons.prems(2) have "j < length rest" by simp
    from Cons.IH [OF rest this] Suc show ?thesis by simp
  qed
qed

lemma length_move_b [simp]: "length (move_b h son d) = length d"
  by (simp add: move_b_def Let_def)

lemma move_b_fields:
  assumes "k < length d"
  shows "charge (move_b h son d ! k) = charge (d ! k)"
    and "r_aim (move_b h son d ! k) = r_aim (d ! k)"
    and "a_i (move_b h son d ! k) = a_i (d ! k)"
  using assms by (cases "k = h"; cases "k = son"; simp add: move_b_def Let_def)+

lemma move_b_frame:
  "length (move_b h son d) = length d"
  "map charge (move_b h son d) = map charge d"
  "map r_aim (move_b h son d) = map r_aim d"
  by (simp_all add: list_eq_iff_nth_eq move_b_fields)

lemma redistribute_frame:
  assumes "redistribute pair d = Inr d'"
  shows "length d' = length d \<and> map charge d' = map charge d \<and> map r_aim d' = map r_aim d"
  using assms
  by (auto simp: redistribute_def bind_result_eq_Inr move_b_frame split: if_splits)

lemma redistribute_all_frame:
  "redistribute_all ps d = Inr d' \<Longrightarrow>
   length d' = length d \<and> map charge d' = map charge d \<and> map r_aim d' = map r_aim d"
proof (induction ps arbitrary: d)
  case Nil
  then show ?case by simp
next
  case (Cons pair rest)
  from Cons.prems obtain d1 where
    one: "redistribute pair d = Inr d1" and more: "redistribute_all rest d1 = Inr d'"
    by (auto simp: bind_result_eq_Inr)
  from redistribute_frame [OF one] Cons.IH [OF more] show ?case by simp
qed

lemma correct_polar_hydrogens_Inr:
  assumes "correct_polar_hydrogens inp edges ddec nbf = Inr (ddec', nbf')"
  obtains nps ddec2 where
    "new_pairs (positions inp) edges = Inr nps"
    "redistribute_all (find_polars nps) (map (\<lambda>atom. atom\<lparr>b_i := sqrt (b_i atom)\<rparr>) ddec) = Inr ddec2"
    "ddec' = map (\<lambda>atom. atom\<lparr>a_i := 32 * b_i atom * (r_aim atom) ^ 6\<rparr>)
               (map (\<lambda>atom. atom\<lparr>b_i := b_i atom * b_i atom\<rparr>) ddec2)"
    "update_epsilon_from 0 ddec' nbf = Inr nbf'"
  using assms
  by (auto simp: correct_polar_hydrogens_def bind_result_eq_Inr Let_def)

lemma correct_polar_hydrogens_frame:
  assumes "correct_polar_hydrogens inp edges ddec nbf = Inr (ddec', nbf')"
  shows "length ddec' = length ddec"
    and "k < length ddec \<Longrightarrow> charge (ddec' ! k) = charge (ddec ! k)"
    and "k < length ddec \<Longrightarrow> r_aim (ddec' ! k) = r_aim (ddec ! k)"
    and "k < length ddec \<Longrightarrow> a_i (ddec' ! k) = 32 * b_i (ddec' ! k) * (r_aim (ddec ! k)) ^ 6"
proof -
  from assms obtain nps ddec2 where
    red: "redistribute_all (find_polars nps) (map (\<lambda>atom. atom\<lparr>b_i := sqrt (b_i atom)\<rparr>) ddec) = Inr ddec2"
    and d': "ddec' = map (\<lambda>atom. atom\<lparr>a_i := 32 * b_i atom * (r_aim atom) ^ 6\<rparr>)
               (map (\<lambda>atom. atom\<lparr>b_i := b_i atom * b_i atom\<rparr>) ddec2)"
    by (rule correct_polar_hydrogens_Inr)
  from redistribute_all_frame [OF red]
  have len: "length ddec2 = length ddec"
    and ch: "map charge ddec2 = map charge ddec"
    and ra: "map r_aim ddec2 = map r_aim ddec"
    by (simp_all add: comp_def)
  show "length ddec' = length ddec" using d' len by simp
  {
    assume k: "k < length ddec"
    from ch k len have "charge (ddec2 ! k) = charge (ddec ! k)"
      by (metis nth_map)
    then show "charge (ddec' ! k) = charge (ddec ! k)" using d' k len by simp
    from ra k len have r: "r_aim (ddec2 ! k) = r_aim (ddec ! k)"
      by (metis nth_map)
    then show "r_aim (ddec' ! k) = r_aim (ddec ! k)" using d' k len by simp
    from r show "a_i (ddec' ! k) = 32 * b_i (ddec' ! k) * (r_aim (ddec ! k)) ^ 6"
      using d' k len by simp
  }
qed

text \<open>
  Claim C10. The polar-hydrogen correction never modifies a charge: when the table is
  the one \<^verbatim>\<open>calculate_sig_eps\<close> has built from the same rows, the charge entry under
  every key \<open>k\<close> is the same after \<^verbatim>\<open>correct_polar_hydrogens\<close> as before it (and an absent
  key stays absent), so only sigma and epsilon entries can change.
\<close>

theorem correct_polar_hydrogens_keeps_charge:
  assumes first: "calculate_sig_eps ddec nbf = Inr nbf0"
    and run: "correct_polar_hydrogens inp edges ddec nbf0 = Inr (ddec', nbf1)"
  shows "map_option nb_charge (nbf1 k) = map_option nb_charge (nbf0 k)"
proof -
  from run have upd: "update_epsilon_from 0 ddec' nbf0 = Inr nbf1"
    by (rule correct_polar_hydrogens_Inr)
  have len: "length ddec' = length ddec" using run by (rule correct_polar_hydrogens_frame)
  show ?thesis
  proof (cases "0 \<le> k \<and> k < int (length ddec)")
    case True
    define j where "j = nat k"
    with True have j: "j < length ddec" and k: "k = int (0 + j)" by auto
    from update_epsilon_from_nth [OF upd, of j] j len obtain old where
      "nbf0 k = Some old" and new: "nbf1 k = Some (new_entry (ddec' ! j) old)"
      unfolding k by auto
    moreover from calculate_sig_eps_from_nth [of 0 ddec nbf nbf0 j] first j
    obtain sigma epsilon where "nbf0 k = Some (charge (ddec ! j), sigma, epsilon)"
      unfolding k calculate_sig_eps_def by auto
    moreover have "charge (ddec' ! j) = charge (ddec ! j)"
      using run j by (rule correct_polar_hydrogens_frame)
    ultimately show ?thesis by (auto simp: nb_charge_def new_entry_def Let_def)
  next
    case False
    then have "k < int 0 \<or> int (0 + length ddec') \<le> k" using len by auto
    then have "nbf1 k = nbf0 k"
      using update_epsilon_from_below [OF upd] update_epsilon_from_above [OF upd] by blast
    then show ?thesis by simp
  qed
qed



lemma positions_water:
  "positions water_input 1 = Some ''O''"
  "positions water_input 2 = Some ''H''"
  "positions water_input 3 = Some ''H''"
  by (simp_all add: positions_def water_input_def)

lemma new_pairs_water:
  "new_pairs (positions water_input) water_edges = Inr [((1, ''O''), (2, ''H'')), ((1, ''O''), (3, ''H''))]"
  by (simp add: water_edges_def new_pair_def positions_water)

lemma find_polars_water:
  "find_polars [((1, ''O''), (2, ''H'')), ((1, ''O''), (3, ''H''))] = [((1, ''O''), (2, ''H'')), ((1, ''O''), (3, ''H''))]"
  by (simp add: is_son_def contains_def)










lemma calculate_sig_eps_water: "calculate_sig_eps water_lj Map.empty = Inr water_nbf"
  by (simp add: calculate_sig_eps_def water_lj_def water_nbf_def sig_eps_def Let_def)

lemma water_b_O_pos: "0 < water_b_O"
proof -
  have "0 < sqrt 15.6 + sqrt 6.5 + sqrt 6.5" by (intro add_pos_pos) simp_all
  then show ?thesis unfolding water_b_O_def by (simp add: zero_less_mult_iff)
qed

lemma redistribute_all_water2:
  "redistribute_all [((1, ''O''), (2, ''H'')), ((1, ''O''), (3, ''H''))]
     (map (\<lambda>atom. atom\<lparr>b_i := sqrt (b_i atom)\<rparr>) water_lj) = Inr
    [\<lparr>atom_number = 1, atom_type = ''O'', charge = -0.8, vol = 22.1, r_aim = 1.6,
      b_i = sqrt 15.6 + sqrt 6.5 + sqrt 6.5, a_i = 32 * 15.6 * 1.6 ^ 6\<rparr>,
     \<lparr>atom_number = 2, atom_type = ''H'', charge = 0.4, vol = 7.6, r_aim = 1.64, b_i = 0, a_i = 32 * 6.5 * 1.64 ^ 6\<rparr>,
     \<lparr>atom_number = 3, atom_type = ''H'', charge = 0.4, vol = 7.6, r_aim = 1.64, b_i = 0, a_i = 32 * 6.5 * 1.64 ^ 6\<rparr>]"
  by (simp add: water_lj_def redistribute_def polar_indices_def polar_positions_def contains_def label_pos_def py_index_def move_b_def Let_def)

lemma correct_polar_hydrogens_water:
  "correct_polar_hydrogens water_input water_edges water_lj water_nbf = Inr (water_corrected, water_nbf')"
proof -
  let ?polars = "[((1, ''O''), (2, ''H'')), ((1, ''O''), (3, ''H''))] :: (label \<times> label) list"
  obtain ddec2 where
    red: "redistribute_all ?polars (map (\<lambda>atom. atom\<lparr>b_i := sqrt (b_i atom)\<rparr>) water_lj) = Inr ddec2"
    and corrected: "map (\<lambda>atom. atom\<lparr>a_i := 32 * b_i atom * (r_aim atom) ^ 6\<rparr>)
               (map (\<lambda>atom. atom\<lparr>b_i := b_i atom * b_i atom\<rparr>) ddec2) = water_corrected"
    using redistribute_all_water2 by (simp add: water_corrected_def water_b_O_def)
  have a: "32 * water_b_O * 1.6 ^ 6 \<noteq> 0" using water_b_O_pos by simp
  have upd: "update_epsilon_from 0 water_corrected water_nbf = Inr water_nbf'"
    using a by (simp add: water_corrected_def water_nbf'_def water_nbf_def new_entry_def Let_def nb_sigma_def)
  show ?thesis
    by (simp only: correct_polar_hydrogens_def Let_def new_pairs_water find_polars_water
        bind_result_simps red corrected upd)
qed








text \<open>Claim C10 on water: the first hydrogen keeps its charge 0.4.\<close>

theorem correct_polar_hydrogens_keeps_charge_witness:
  "calculate_sig_eps water_lj Map.empty = Inr water_nbf \<and>
   correct_polar_hydrogens water_input water_edges water_lj water_nbf = Inr (water_corrected, water_nbf') \<and>
   map_option nb_charge (water_nbf' 1) = map_option nb_charge (water_nbf 1) \<and>
   map_option nb_charge (water_nbf 1) = Some 0.4"
  using correct_polar_hydrogens_keeps_charge [OF calculate_sig_eps_water correct_polar_hydrogens_water, of 1]
    calculate_sig_eps_water correct_polar_hydrogens_water
  by (simp add: water_nbf_def nb_charge_def)

section \<open>Properties of mod\_seminario.py\<close>

lemma cmod_cdot_cneg: "cmod (cdot u (cneg v)) = cmod (cdot u v)"
proof -
  have "cdot u (cneg v) = - cdot u v"
    by (cases u, cases v) (simp add: cdot_def cneg_def)
  then show ?thesis by simp
qed

lemma cmod_dot_product_cneg: "cmod (dot_product u (cneg v)) = cmod (dot_product u v)"
proof -
  have "dot_product u (cneg v) = - dot_product u v"
    by (cases u, cases v) (simp add: dot_product_def cneg_def)
  then show ?thesis by simp
qed

lemma column_flip:
  "column (vecs_of (flip_eigenvector eigenvecs p q i) a b) j =
     (if a = p \<and> b = q \<and> j = i then cneg (column (vecs_of eigenvecs a b) j)
      else column (vecs_of eigenvecs a b) j)"
  by (simp add: column_def vecs_of_def flip_eigenvector_def cneg_def)

lemma cmod_cdot_flip:
  "cmod (cdot u (column (vecs_of (flip_eigenvector eigenvecs p q i) a b) j)) =
   cmod (cdot u (column (vecs_of eigenvecs a b) j))"
  by (simp add: column_flip cmod_cdot_cneg)

lemma cmod_dot_product_flip:
  "cmod (dot_product u (column (vecs_of (flip_eigenvector eigenvecs p q i) a b) j)) =
   cmod (dot_product u (column (vecs_of eigenvecs a b) j))"
  by (simp add: column_flip cmod_dot_product_cneg)

lemma projected_sum_flip:
  "projected_sum vals (vecs_of (flip_eigenvector eigenvecs p q i) a b) u =
   projected_sum vals (vecs_of eigenvecs a b) u"
  by (simp add: projected_sum_def cmod_dot_product_flip)

lemma force_constant_bond_flip:
  "force_constant_bond atom_a atom_b eigenvals (flip_eigenvector eigenvecs p q i) coords =
   force_constant_bond atom_a atom_b eigenvals eigenvecs coords"
  by (simp add: force_constant_bond_def Let_def cmod_cdot_flip)

lemma trial_k_theta_flip:
  "trial_k_theta u_ab u_cb bl vals
     (vecs_of (flip_eigenvector eigenvecs p q i) a b, vecs_of (flip_eigenvector eigenvecs p q i) c d) u_n =
   trial_k_theta u_ab u_cb bl vals (vecs_of eigenvecs a b, vecs_of eigenvecs c d) u_n"
  by (simp add: trial_k_theta_def projected_sum_flip)

lemma fill_k_theta_array_cong:
  assumes "\<And>theta. sample_k_theta u_ab u_cb bl vals vecs theta = sample_k_theta u_ab u_cb bl vals vecs' theta"
  shows "fill_k_theta_array u_ab u_cb bl vals vecs theta arr = fill_k_theta_array u_ab u_cb bl vals vecs' theta arr"
proof (induction "n_samples - theta" arbitrary: theta arr)
  case 0
  then show ?case by (simp add: fill_k_theta_array.simps [of _ _ _ _ _ theta])
next
  case (Suc d)
  then have "d = n_samples - Suc theta" and "theta < n_samples" by simp_all
  with Suc.hyps(1) [of "Suc theta"] assms show ?case
    by (simp add: fill_k_theta_array.simps [of _ _ _ _ _ theta])
qed

lemma f_c_a_special_case_flip:
  "f_c_a_special_case u_ab u_cb bl vals
     (vecs_of (flip_eigenvector eigenvecs p q i) a b, vecs_of (flip_eigenvector eigenvecs p q i) c d) =
   f_c_a_special_case u_ab u_cb bl vals (vecs_of eigenvecs a b, vecs_of eigenvecs c d)"
proof -
  have "fill_k_theta_array u_ab u_cb bl vals
     (vecs_of (flip_eigenvector eigenvecs p q i) a b, vecs_of (flip_eigenvector eigenvecs p q i) c d) theta arr =
     fill_k_theta_array u_ab u_cb bl vals (vecs_of eigenvecs a b, vecs_of eigenvecs c d) theta arr" for theta arr
    by (rule fill_k_theta_array_cong) (simp add: sample_k_theta_def trial_k_theta_flip)
  then show ?thesis by (simp add: f_c_a_special_case_def)
qed

lemma force_constant_angle_flip:
  "force_constant_angle atom_a atom_b atom_c bond_lens eigenvals (flip_eigenvector eigenvecs p q i) coords scalings =
   force_constant_angle atom_a atom_b atom_c bond_lens eigenvals eigenvecs coords scalings"
  by (simp add: force_constant_angle_def Let_def f_c_a_special_case_flip projected_sum_flip cong: if_cong)

lemma angles_from_flip:
  "angles_from vib st bond_lens eigenvals (flip_eigenvector eigenvecs p q i) coords k angle_list =
   angles_from vib st bond_lens eigenvals eigenvecs coords k angle_list"
  by (induction angle_list arbitrary: k) (simp_all add: force_constant_angle_flip split: prod.splits)

lemma calculate_bonds_flip:
  "calculate_bonds vib bond_list bond_lens eigenvals (flip_eigenvector eigenvecs p q i) coords =
   calculate_bonds vib bond_list bond_lens eigenvals eigenvecs coords"
  by (induction bond_list) (simp_all add: force_constant_bond_flip)

text \<open>
  Claim C9. Flipping the sign of eigenvector \<open>i\<close> of the block of any pair of atoms
  \<open>(p, q)\<close> changes no bond force constant and no angle force constant, neither those of
  \<^verbatim>\<open>force_constant_bond\<close> and \<^verbatim>\<open>force_constant_angle\<close> (on either branch) nor those
  reported by \<^verbatim>\<open>calculate_bonds\<close> and \<^verbatim>\<open>calculate_angles\<close>: an eigenvector enters
  only through the absolute value of a dot product.
\<close>

theorem eigenvector_sign_invariance:
  "force_constant_bond atom_a atom_b eigenvals (flip_eigenvector eigenvecs p q i) coords =
     force_constant_bond atom_a atom_b eigenvals eigenvecs coords \<and>
   force_constant_angle atom_a atom_b atom_c bond_lens eigenvals (flip_eigenvector eigenvecs p q i) coords scalings =
     force_constant_angle atom_a atom_b atom_c bond_lens eigenvals eigenvecs coords scalings \<and>
   calculate_bonds vib_scaling bond_list bond_lens eigenvals (flip_eigenvector eigenvecs p q i) coords =
     calculate_bonds vib_scaling bond_list bond_lens eigenvals eigenvecs coords \<and>
   calculate_angles vib_scaling angle_list bond_lens eigenvals (flip_eigenvector eigenvecs p q i) coords =
     calculate_angles vib_scaling angle_list bond_lens eigenvals eigenvecs coords"
  by (simp add: force_constant_bond_flip force_constant_angle_flip calculate_bonds_flip
      calculate_angles_def angles_from_flip)


lemma sum_list_range3: "sum_list (map f [0, 1, 2]) = (\<Sum>i<(3::nat). f i)"
  by (simp add: numeral_3_eq_3 numeral_2_eq_2 add.assoc)

lemma normalise_eq_None_iff: "normalise v = None \<longleftrightarrow> v = (0, 0, 0)"
proof -
  obtain x y z where v: "v = (x, y, z)" by (cases v)
  have "x * x + y * y + z * z = 0 \<longleftrightarrow> x = 0 \<and> y = 0 \<and> z = 0"
    by (simp add: add_nonneg_eq_0_iff)
  then show ?thesis by (simp add: v normalise_def linalg_norm_def dot_def)
qed

lemma vsub_eq_zero_iff: "vsub u v = (0, 0, 0) \<longleftrightarrow> u = v"
  by (cases u, cases v) (simp add: vsub_def)

lemma vector_along_bond_resolved:
  assumes "py_index (length coords) atom_a = Inr a" and "py_index (length coords) atom_b = Inr b"
  shows "vector_along_bond coords atom_a atom_b = Inr (normalise (vsub (coords ! b) (coords ! a)))"
  using assms by (simp add: vector_along_bond_def)

lemma force_constant_bond_resolved:
  assumes a: "py_index (length coords) atom_a = Inr a" and b: "py_index (length coords) atom_b = Inr b"
  shows "force_constant_bond atom_a atom_b eigenvals eigenvecs coords =
     Inr (map_option (spec_bond_constant (vals_of eigenvals a b) (vecs_of eigenvecs a b))
            (normalise (vsub (coords ! b) (coords ! a))))"
proof -
  have "spec_bond_constant vals vecs = (\<lambda>u. - 0.5 * sum_list (map (\<lambda>i. vals i *
                        of_real (cmod (cdot u (column vecs i)))) [0, 1, 2]))" for vals vecs
    unfolding spec_bond_constant_def sum_list_range3 ..
  then show ?thesis
    using a b by (simp add: force_constant_bond_def vector_along_bond_resolved [OF a b] Let_def)
qed

lemma calculate_bonds_nth:
  "calculate_bonds vib bond_list bond_lens eigenvals eigenvecs coords = Inr out \<Longrightarrow>
   pos < length bond_list \<Longrightarrow>
   \<exists>ab ba bond_len.
     force_constant_bond (fst (bond_list ! pos) - 1) (snd (bond_list ! pos) - 1) eigenvals eigenvecs coords = Inr ab \<and>
     force_constant_bond (snd (bond_list ! pos) - 1) (fst (bond_list ! pos) - 1) eigenvals eigenvecs coords = Inr ba \<and>
     out ! pos = (map_option (\<lambda>z. Re z * vib ^ 2) (nan_div (nan_add ab ba) (Some 2)), bond_len)"
proof (induction bond_list arbitrary: out pos)
  case Nil
  then show ?case by simp
next
  case (Cons bond rest)
  from Cons.prems(1) obtain ab ba bond_len out' where
    ab: "force_constant_bond (fst bond - 1) (snd bond - 1) eigenvals eigenvecs coords = Inr ab" and
    ba: "force_constant_bond (snd bond - 1) (fst bond - 1) eigenvals eigenvecs coords = Inr ba" and
    rest: "calculate_bonds vib rest bond_lens eigenvals eigenvecs coords = Inr out'" and
    out: "out = (map_option (\<lambda>z. Re z * vib ^ 2) (nan_div (nan_add ab ba) (Some 2)), bond_len) # out'"
    by (auto simp: bind_result_eq_Inr Let_def)
  show ?case
  proof (cases pos)
    case 0
    with ab ba out show ?thesis by simp
  next
    case (Suc k)
    with Cons.prems(2) have "k < length rest" by simp
    from Cons.IH [OF rest this] Suc out show ?thesis by simp
  qed
qed

text \<open>
  Claim C3. For a bond \<open>(i, j)\<close> of the list between two atoms at different places, the
  force constant of each ordering is \<open>-0.5\<close> times the sum over the three eigenpairs of
  the block of eigenvalue times the absolute value of the dot product of the bond's unit
  vector with the eigenvector, and the reported force constant is \<open>vib_scaling\<^sup>2\<close> times
  the mean of the two: the eigenvalues are complex numbers and the code applies
  \<^verbatim>\<open>real\<close> to the mean, so the reported number is \<open>vib_scaling\<^sup>2\<close> times the real part of the
  mean, which is the mean itself whenever the mean is a real number.
\<close>

theorem bond_force_constants:
  assumes run: "calculate_bonds vib_scaling bond_list bond_lens eigenvals eigenvecs coords = Inr out"
    and pos: "pos < length bond_list"
    and bond: "bond_list ! pos = (i, j)"
    and a: "py_index (length coords) (i - 1) = Inr a"
    and b: "py_index (length coords) (j - 1) = Inr b"
    and apart: "coords ! a \<noteq> coords ! b"
  shows "\<exists>u_ab u_ba ab ba.
     vector_along_bond coords (i - 1) (j - 1) = Inr (Some u_ab) \<and>
     vector_along_bond coords (j - 1) (i - 1) = Inr (Some u_ba) \<and>
     force_constant_bond (i - 1) (j - 1) eigenvals eigenvecs coords = Inr (Some ab) \<and>
     ab = - 0.5 * (\<Sum>k<3. eigenvals a b k *
            of_real (cmod (cdot u_ab (eigenvecs 0 k a b, eigenvecs 1 k a b, eigenvecs 2 k a b)))) \<and>
     force_constant_bond (j - 1) (i - 1) eigenvals eigenvecs coords = Inr (Some ba) \<and>
     ba = - 0.5 * (\<Sum>k<3. eigenvals b a k *
            of_real (cmod (cdot u_ba (eigenvecs 0 k b a, eigenvecs 1 k b a, eigenvecs 2 k b a)))) \<and>
     fst (out ! pos) = Some (vib_scaling ^ 2 * Re ((ab + ba) / 2)) \<and>
     (Im ((ab + ba) / 2) = 0 \<longrightarrow>
        map_option complex_of_real (fst (out ! pos)) = Some (of_real (vib_scaling ^ 2) * ((ab + ba) / 2)))"
proof -
  from apart obtain u_ab where u_ab: "normalise (vsub (coords ! b) (coords ! a)) = Some u_ab"
    using normalise_eq_None_iff [of "vsub (coords ! b) (coords ! a)"] vsub_eq_zero_iff [of "coords ! b" "coords ! a"]
    by (cases "normalise (vsub (coords ! b) (coords ! a))") auto
  from apart obtain u_ba where u_ba: "normalise (vsub (coords ! a) (coords ! b)) = Some u_ba"
    using normalise_eq_None_iff [of "vsub (coords ! a) (coords ! b)"] vsub_eq_zero_iff [of "coords ! a" "coords ! b"]
    by (cases "normalise (vsub (coords ! a) (coords ! b))") auto
  let ?ab = "spec_bond_constant (vals_of eigenvals a b) (vecs_of eigenvecs a b) u_ab"
  let ?ba = "spec_bond_constant (vals_of eigenvals b a) (vecs_of eigenvecs b a) u_ba"
  have ab: "force_constant_bond (i - 1) (j - 1) eigenvals eigenvecs coords = Inr (Some ?ab)"
    by (simp add: force_constant_bond_resolved [OF a b] u_ab)
  have ba: "force_constant_bond (j - 1) (i - 1) eigenvals eigenvecs coords = Inr (Some ?ba)"
    by (simp add: force_constant_bond_resolved [OF b a] u_ba)
  from calculate_bonds_nth [OF run pos] bond ab ba
  have reported: "fst (out ! pos) = Some (vib_scaling ^ 2 * Re ((?ab + ?ba) / 2))"
    by (auto simp: nan_add_def nan_div_def)
  have real_mean: "complex_of_real (vib_scaling ^ 2 * Re z) = of_real (vib_scaling ^ 2) * z"
    if "Im z = 0" for z :: complex
    using that by (simp add: complex_eq_iff)
  have "Im ((?ab + ?ba) / 2) = 0 \<longrightarrow>
        map_option complex_of_real (fst (out ! pos)) = Some (of_real (vib_scaling ^ 2) * ((?ab + ?ba) / 2))"
  proof
    assume "Im ((?ab + ?ba) / 2) = 0"
    then have "complex_of_real (vib_scaling ^ 2 * Re ((?ab + ?ba) / 2)) =
        of_real (vib_scaling ^ 2) * ((?ab + ?ba) / 2)"
      by (rule real_mean)
    then show "map_option complex_of_real (fst (out ! pos)) =
        Some (of_real (vib_scaling ^ 2) * ((?ab + ?ba) / 2))"
      by (simp only: reported option.map)
  qed
  moreover note reported
  moreover have "?ab = - 0.5 * (\<Sum>k<3. eigenvals a b k *
            of_real (cmod (cdot u_ab (eigenvecs 0 k a b, eigenvecs 1 k a b, eigenvecs 2 k a b))))"
    by (simp add: spec_bond_constant_def vals_of_def vecs_of_def column_def)
  moreover have "?ba = - 0.5 * (\<Sum>k<3. eigenvals b a k *
            of_real (cmod (cdot u_ba (eigenvecs 0 k b a, eigenvecs 1 k b a, eigenvecs 2 k b a))))"
    by (simp add: spec_bond_constant_def vals_of_def vecs_of_def column_def)
  ultimately show ?thesis
    using ab ba vector_along_bond_resolved [OF a b] vector_along_bond_resolved [OF b a] u_ab u_ba
    by auto
qed

text \<open>Claim C3 on two atoms 2 apart, every eigenvalue of the block being -6.\<close>

theorem bond_force_constants_witness:
  "calculate_bonds 2 [(1, 2)] (\<lambda>a b. 2) diagonal_vals identity_vecs two_atoms = Inr [(Some 12, 2)] \<and>
   force_constant_bond (1 - 1) (2 - 1) diagonal_vals identity_vecs two_atoms = Inr (Some 3) \<and>
   force_constant_bond (2 - 1) (1 - 1) diagonal_vals identity_vecs two_atoms = Inr (Some 3) \<and>
   Some (12::real) = Some (2 ^ 2 * Re ((3 + 3) / 2)) \<and>
   Some (complex_of_real 12) = Some (of_real (2 ^ 2) * ((3 + 3) / 2))"
proof -
  have len: "length two_atoms = 2" by (simp add: two_atoms_def)
  have fcb0: "force_constant_bond 0 1 diagonal_vals identity_vecs two_atoms = Inr (Some 3)"
    "force_constant_bond 1 0 diagonal_vals identity_vecs two_atoms = Inr (Some 3)"
    by (simp_all add: force_constant_bond_def py_index_def vector_along_bond_def normalise_def
        linalg_norm_def dot_def vsub_def cdot_def column_def vals_of_def vecs_of_def
        diagonal_vals_def identity_vecs_def two_atoms_def Let_def)
  then have fcb: "force_constant_bond (1 - 1) (2 - 1) diagonal_vals identity_vecs two_atoms = Inr (Some 3)"
    "force_constant_bond (2 - 1) (1 - 1) diagonal_vals identity_vecs two_atoms = Inr (Some 3)"
    by simp_all
  have run: "calculate_bonds 2 [(1, 2)] (\<lambda>a b. 2) diagonal_vals identity_vecs two_atoms = Inr [(Some 12, 2)]"
    by (simp add: fcb0 nan_add_def nan_div_def bond_lens_at_def py_index_def len)
  have pos: "0 < length [(1::int, 2::int)]" and bond: "[(1::int, 2::int)] ! 0 = (1, 2)" by simp_all
  have a: "py_index (length two_atoms) (1 - 1) = Inr 0" and b: "py_index (length two_atoms) (2 - 1) = Inr 1"
    by (simp_all add: py_index_def two_atoms_def)
  have apart: "two_atoms ! 0 \<noteq> two_atoms ! 1" by (simp add: two_atoms_def)
  from bond_force_constants [OF run pos bond a b apart] obtain ab ba where
    ab: "force_constant_bond (1 - 1) (2 - 1) diagonal_vals identity_vecs two_atoms = Inr (Some ab)" and
    ba: "force_constant_bond (2 - 1) (1 - 1) diagonal_vals identity_vecs two_atoms = Inr (Some ba)" and
    reported: "fst ([(Some (12::real), 2::real)] ! 0) = Some (2 ^ 2 * Re ((ab + ba) / 2))" and
    mean: "Im ((ab + ba) / 2) = 0 \<longrightarrow>
        map_option complex_of_real (fst ([(Some (12::real), 2::real)] ! 0)) =
        Some (of_real (2 ^ 2) * ((ab + ba) / 2))"
    by blast
  from ab ba fcb have "ab = 3" "ba = 3" by simp_all
  with reported mean run fcb show ?thesis by simp
qed


lemma fill_k_theta_array_eq:
  "theta \<le> n_samples \<Longrightarrow> length arr = n_samples \<Longrightarrow>
   fill_k_theta_array u_ab u_cb bl vals vecs theta arr =
     take theta arr @ map (sample_k_theta u_ab u_cb bl vals vecs) [theta..<n_samples]"
proof (induction "n_samples - theta" arbitrary: theta arr)
  case 0
  then have "\<not> theta < n_samples" by simp
  with 0 show ?case by (subst fill_k_theta_array.simps) simp
next
  case (Suc d)
  then have d: "d = n_samples - Suc theta" and lt: "theta < n_samples" by simp_all
  let ?arr = "arr[theta := sample_k_theta u_ab u_cb bl vals vecs theta]"
  have "fill_k_theta_array u_ab u_cb bl vals vecs theta arr =
        fill_k_theta_array u_ab u_cb bl vals vecs (Suc theta) ?arr"
    using lt by (simp add: fill_k_theta_array.simps [of _ _ _ _ _ theta])
  also have "\<dots> = take (Suc theta) ?arr @ map (sample_k_theta u_ab u_cb bl vals vecs) [Suc theta..<n_samples]"
    using Suc.hyps(1) [OF d] lt Suc.prems by simp
  also have "take (Suc theta) ?arr = take theta arr @ [sample_k_theta u_ab u_cb bl vals vecs theta]"
    using lt Suc.prems by (simp add: take_Suc_conv_app_nth)
  finally show ?case using lt by (simp add: upt_conv_Cons)
qed

lemma k_theta_array_eq:
  "fill_k_theta_array u_ab u_cb bl vals vecs 0 (replicate n_samples (Some 0)) =
     map (sample_k_theta u_ab u_cb bl vals vecs) [0..<n_samples]"
  by (simp add: fill_k_theta_array_eq)



lemma average_None: "None \<in> set xs \<Longrightarrow> average xs = None"
proof -
  have "None \<in> set xs \<Longrightarrow> foldr nan_add xs (Some 0) = None"
    by (induction xs) (auto simp: nan_add_def split: option.splits)
  then show "None \<in> set xs \<Longrightarrow> average xs = None" by (simp add: average_def nan_div_def)
qed

text \<open>
  Claim C1 fails on a right angle: the two bonds are not colinear, the normal \<open>u_n\<close> is
  the unit vector \<open>(0, 0, -1)\<close>, whose entries sum to \<open>-1\<close>, and \<^verbatim>\<open>if sum(u_n):\<close> takes the
  sampling fallback, whatever the scalings are. It also fails on three colinear atoms
  along the z axis: the fallback's first trial normal \<open>(0, 0, 1)\<close> is parallel to the
  bond, and the force constant returned is \<^verbatim>\<open>nan\<close>.
\<close>

theorem right_angle_takes_special_case:
  "vector_along_bond right_angle 0 1 = Inr (Some (- 1, 0, 0)) \<and>
   vector_along_bond right_angle 2 1 = Inr (Some (0, - 1, 0)) \<and>
   unit_vector_n (Some (0, - 1, 0)) (Some (- 1, 0, 0)) = Some (0, 0, - 1) \<and>
   sum_is_true (Some (0, 0, - 1)) \<and>
   force_constant_angle 0 1 2 bond_lens eigenvals eigenvecs right_angle scalings =
     f_c_a_special_case (Some (- 1, 0, 0)) (Some (0, - 1, 0)) (bond_lens 0 1, bond_lens 1 2)
       (vals_of eigenvals 0 1, vals_of eigenvals 2 1) (vecs_of eigenvecs 0 1, vecs_of eigenvecs 2 1) \<and>
   force_constant_angle 0 1 2 bond_lens eigenvals eigenvecs linear_along_z scalings = Inr (None, Some pi)"
proof -
  have v1: "vector_along_bond right_angle 0 1 = Inr (Some (- 1, 0, 0))"
    and v2: "vector_along_bond right_angle 2 1 = Inr (Some (0, - 1, 0))"
    by (simp_all add: vector_along_bond_def py_index_def right_angle_def vsub_def normalise_def
        linalg_norm_def dot_def)
  have n: "unit_vector_n (Some (0, - 1, 0)) (Some (- 1, 0, 0)) = Some (0, 0, - 1)"
    by (simp add: unit_vector_n_def cross_def normalise_def linalg_norm_def dot_def)
  have t: "sum_is_true (Some (0, 0, - 1))" by (simp add: sum_is_true_def)
  have idx: "py_index (length right_angle) 0 = Inr 0" "py_index (length right_angle) 1 = Inr 1"
    "py_index (length right_angle) 2 = Inr 2"
    by (simp_all add: py_index_def right_angle_def)
  have f: "force_constant_angle 0 1 2 bond_lens eigenvals eigenvecs right_angle scalings =
     f_c_a_special_case (Some (- 1, 0, 0)) (Some (0, - 1, 0)) (bond_lens 0 1, bond_lens 1 2)
       (vals_of eigenvals 0 1, vals_of eigenvals 2 1) (vecs_of eigenvecs 0 1, vecs_of eigenvecs 2 1)"
    by (simp add: force_constant_angle_def v1 v2 idx n t Let_def)
  have w1: "vector_along_bond linear_along_z 0 1 = Inr (Some (0, 0, 1))"
    and w2: "vector_along_bond linear_along_z 2 1 = Inr (Some (0, 0, - 1))"
    by (simp_all add: vector_along_bond_def py_index_def linear_along_z_def vsub_def normalise_def
        linalg_norm_def dot_def)
  have idz: "py_index (length linear_along_z) 0 = Inr 0" "py_index (length linear_along_z) 1 = Inr 1"
    "py_index (length linear_along_z) 2 = Inr 2"
    by (simp_all add: py_index_def linear_along_z_def)
  have nz: "unit_vector_n (Some (0, 0, - 1)) (Some (0, 0, 1)) = None"
    by (simp add: unit_vector_n_def cross_def normalise_def linalg_norm_def dot_def)
  have s0: "sample_k_theta (Some (0, 0, 1)) u_cb bl vals vecs 0 = None" for u_cb bl vals vecs
    by (simp add: sample_k_theta_def trial_k_theta_def sample_u_n_def sample_angle_def
        unit_vector_n_def cross_def normalise_def linalg_norm_def dot_def projected_sum_def
        springs_in_series_def nan_div_def nan_add_def Let_def)
  have "None \<in> set (map (sample_k_theta (Some (0, 0, 1)) u_cb bl vals vecs) [0..<n_samples])"
    for u_cb bl vals vecs
  proof -
    have "sample_k_theta (Some (0, 0, 1)) u_cb bl vals vecs 0 \<in>
          sample_k_theta (Some (0, 0, 1)) u_cb bl vals vecs ` set [0..<n_samples]"
      by (rule imageI) (simp add: n_samples_def)
    with s0 [of u_cb bl vals vecs] show ?thesis by simp
  qed
  then have k: "average (fill_k_theta_array (Some (0, 0, 1)) u_cb bl vals vecs 0 (replicate n_samples (Some 0))) = None"
    for u_cb bl vals vecs
    by (simp only: k_theta_array_eq average_None)
  have acos: "py_acos (nan_dot (Some (0, 0, 1)) (Some (0, 0, - 1))) = Inr (Some pi)"
    by (simp add: py_acos_def nan_dot_def dot_def)
  have z: "force_constant_angle 0 1 2 bond_lens eigenvals eigenvecs linear_along_z scalings = Inr (None, Some pi)"
    by (simp add: force_constant_angle_def w1 w2 idz nz sum_is_true_def Let_def
        f_c_a_special_case_def k acos)
  from v1 v2 n t f z show ?thesis by blast
qed

lemma contribution_squared_dot: "contribution unit_pa j k = squared_dot (unit_pa ! j) (unit_pa ! k)"
  by (simp add: contribution_def squared_dot_def)

lemma nan_add_None [simp]: "nan_add None x = None" "nan_add x None = None"
  by (simp_all add: nan_add_def split: option.splits)

lemma nan_add_Some [simp]: "nan_add (Some x) (Some y) = Some (x + y)"
  by (simp add: nan_add_def)

lemma nan_add_zero [simp]: "nan_add (Some 0) x = x" "nan_add x (Some 0) = x" for x :: "real option"
  by (cases x; simp)+

lemma nan_add_assoc: "nan_add (nan_add x y) z = nan_add x (nan_add y z)" for x :: "real option"
  by (cases x; cases y; cases z) simp_all

lemma nan_sum_simps [simp]:
  "nan_sum [] = Some 0"
  "nan_sum (x # xs) = nan_add x (nan_sum xs)"
  by (simp_all add: nan_sum_def)

lemma nan_sum_append: "nan_sum (xs @ ys) = nan_add (nan_sum xs) (nan_sum ys)"
  by (induction xs) (simp_all add: nan_add_assoc)

lemma nan_sum_eq:
  "nan_sum xs = (if None \<in> set xs then None else Some (sum_list (map the xs)))"
proof (induction xs)
  case Nil
  then show ?case by simp
next
  case (Cons a xs)
  then show ?case by (cases a) auto
qed

lemma nan_sum_map_distinct:
  assumes "distinct ks"
  shows "nan_sum (map c ks) =
     (if \<exists>k \<in> set ks. c k = None then None else Some (sum (the \<circ> c) (set ks)))"
proof -
  have "sum_list (map the (map c ks)) = sum (the \<circ> c) (set ks)"
    using assms by (simp add: sum_list_distinct_conv_sum_set comp_def)
  moreover have "None \<in> set (map c ks) \<longleftrightarrow> (\<exists>k \<in> set ks. c k = None)"
    by (auto simp: image_iff intro: sym)
  ultimately show ?thesis by (simp only: nan_sum_eq)
qed

lemma nan_sum_same_set:
  "distinct ks \<Longrightarrow> distinct ks' \<Longrightarrow> set ks = set ks' \<Longrightarrow> nan_sum (map c ks) = nan_sum (map c ks')"
  by (simp add: nan_sum_map_distinct)

lemma forwards_spec:
  "forwards rows unit_pa j n extra = (n', extra') \<Longrightarrow>
   n \<le> n' \<and>
   (\<forall>k. n \<le> k \<and> k < n' \<longrightarrow> j + k < length rows \<and> fst (rows ! (j + k)) = fst (rows ! j)) \<and>
   \<not> (j + n' < length rows \<and> fst (rows ! j) = fst (rows ! (j + n'))) \<and>
   extra' = nan_add extra (nan_sum (map (\<lambda>k. contribution unit_pa j (j + k)) [n..<n']))"
proof (induction rows unit_pa j n extra rule: forwards.induct)
  case (1 rows unit_pa j n extra)
  show ?case
  proof (cases "j + n < length rows \<and> fst (rows ! j) = fst (rows ! (j + n))")
    case True
    with "1.prems" have rec:
      "forwards rows unit_pa j (Suc n) (nan_add extra (contribution unit_pa j (j + n))) = (n', extra')"
      by (simp add: forwards.simps [of rows unit_pa j n])
    from "1.IH" [OF True rec] have
      le: "Suc n \<le> n'" and
      run: "\<forall>k. Suc n \<le> k \<and> k < n' \<longrightarrow> j + k < length rows \<and> fst (rows ! (j + k)) = fst (rows ! j)" and
      stop: "\<not> (j + n' < length rows \<and> fst (rows ! j) = fst (rows ! (j + n')))" and
      ex: "extra' = nan_add (nan_add extra (contribution unit_pa j (j + n)))
             (nan_sum (map (\<lambda>k. contribution unit_pa j (j + k)) [Suc n..<n']))"
      by blast+
    from le have upt: "[n..<n'] = n # [Suc n..<n']" by (simp add: upt_conv_Cons)
    have "\<forall>k. n \<le> k \<and> k < n' \<longrightarrow> j + k < length rows \<and> fst (rows ! (j + k)) = fst (rows ! j)"
    proof (intro allI impI)
      fix k assume k: "n \<le> k \<and> k < n'"
      show "j + k < length rows \<and> fst (rows ! (j + k)) = fst (rows ! j)"
      proof (cases "k = n")
        case True
        with \<open>j + n < length rows \<and> fst (rows ! j) = fst (rows ! (j + n))\<close> show ?thesis by simp
      next
        case False
        with k have "Suc n \<le> k \<and> k < n'" by simp
        with run show ?thesis by blast
      qed
    qed
    with le stop ex upt show ?thesis by (simp add: nan_add_assoc)
  next
    case False
    with "1.prems" have "n' = n" "extra' = extra"
      by (simp_all add: forwards.simps [of rows unit_pa j n])
    with False show ?thesis by simp
  qed
qed

lemma backwards_spec:
  "backwards rows unit_pa j m extra = (m', extra') \<Longrightarrow>
   m \<le> m' \<and>
   (\<forall>k. m \<le> k \<and> k < m' \<longrightarrow> k \<le> j \<and> fst (rows ! (j - k)) = fst (rows ! j)) \<and>
   \<not> (m' \<le> j \<and> fst (rows ! j) = fst (rows ! (j - m'))) \<and>
   extra' = nan_add extra (nan_sum (map (\<lambda>k. contribution unit_pa j (j - k)) [m..<m']))"
proof (induction rows unit_pa j m extra rule: backwards.induct)
  case (1 rows unit_pa j m extra)
  show ?case
  proof (cases "m \<le> j \<and> fst (rows ! j) = fst (rows ! (j - m))")
    case True
    with "1.prems" have rec:
      "backwards rows unit_pa j (Suc m) (nan_add extra (contribution unit_pa j (j - m))) = (m', extra')"
      by (simp add: backwards.simps [of rows unit_pa j m])
    from "1.IH" [OF True rec] have
      le: "Suc m \<le> m'" and
      run: "\<forall>k. Suc m \<le> k \<and> k < m' \<longrightarrow> k \<le> j \<and> fst (rows ! (j - k)) = fst (rows ! j)" and
      stop: "\<not> (m' \<le> j \<and> fst (rows ! j) = fst (rows ! (j - m')))" and
      ex: "extra' = nan_add (nan_add extra (contribution unit_pa j (j - m)))
             (nan_sum (map (\<lambda>k. contribution unit_pa j (j - k)) [Suc m..<m']))"
      by blast+
    from le have upt: "[m..<m'] = m # [Suc m..<m']" by (simp add: upt_conv_Cons)
    have "\<forall>k. m \<le> k \<and> k < m' \<longrightarrow> k \<le> j \<and> fst (rows ! (j - k)) = fst (rows ! j)"
    proof (intro allI impI)
      fix k assume k: "m \<le> k \<and> k < m'"
      show "k \<le> j \<and> fst (rows ! (j - k)) = fst (rows ! j)"
      proof (cases "k = m")
        case True
        with \<open>m \<le> j \<and> fst (rows ! j) = fst (rows ! (j - m))\<close> show ?thesis by simp
      next
        case False
        with k have "Suc m \<le> k \<and> k < m'" by simp
        with run show ?thesis by blast
      qed
    qed
    with le stop ex upt show ?thesis by (simp add: nan_add_assoc)
  next
    case False
    with "1.prems" have "m' = m" "extra' = extra"
      by (simp_all add: backwards.simps [of rows unit_pa j m])
    with False show ?thesis by simp
  qed
qed


lemma sorted_keys:
  assumes "sorted (map fst rows)" "a \<le> b" "b < length rows"
  shows "fst (rows ! a) \<le> fst (rows ! b)"
  using assms sorted_iff_nth_mono [of "map fst rows"] by auto

lemma scan_indices:
  fixes rows :: "ac_row list"
  assumes sorted: "sorted (map fst rows)" and j: "j < length rows"
    and n1: "1 \<le> n'" and m1: "1 \<le> m'"
    and frun: "\<forall>k. 1 \<le> k \<and> k < n' \<longrightarrow> j + k < length rows \<and> fst (rows ! (j + k)) = fst (rows ! j)"
    and fstop: "\<not> (j + n' < length rows \<and> fst (rows ! j) = fst (rows ! (j + n')))"
    and brun: "\<forall>k. 1 \<le> k \<and> k < m' \<longrightarrow> k \<le> j \<and> fst (rows ! (j - k)) = fst (rows ! j)"
    and bstop: "\<not> (m' \<le> j \<and> fst (rows ! j) = fst (rows ! (j - m')))"
  shows "distinct (map (\<lambda>k. j + k) [1..<n'] @ map (\<lambda>k. j - k) [1..<m'])"
    and "set (map (\<lambda>k. j + k) [1..<n'] @ map (\<lambda>k. j - k) [1..<m']) = set (neighbours rows j)"
proof -
  have m'j: "m' \<le> Suc j"
  proof (rule ccontr)
    assume "\<not> m' \<le> Suc j"
    then have "1 \<le> Suc j \<and> Suc j < m'" by simp
    with brun have "Suc j \<le> j" by blast
    then show False by simp
  qed
  have inj: "inj_on (\<lambda>k. j - k) (set [1..<m'])"
    using m'j by (auto simp: inj_on_def)
  have d1: "distinct (map (\<lambda>k. j + k) [1..<n'])" by (simp add: distinct_map inj_on_def)
  have d2: "distinct (map (\<lambda>k. j - k) [1..<m'])" using inj by (simp add: distinct_map)
  have disj: "set (map (\<lambda>k. j + k) [1..<n']) \<inter> set (map (\<lambda>k. j - k) [1..<m']) = {}"
    by auto
  show "distinct (map (\<lambda>k. j + k) [1..<n'] @ map (\<lambda>k. j - k) [1..<m'])"
    using d1 d2 disj by simp
  have above: "fst (rows ! q) = fst (rows ! j) \<longleftrightarrow> q < j + n'" if "j < q" "q < length rows" for q
  proof
    assume eq: "fst (rows ! q) = fst (rows ! j)"
    show "q < j + n'"
    proof (rule ccontr)
      assume "\<not> q < j + n'"
      then have le: "j + n' \<le> q" by simp
      with that have lt: "j + n' < length rows \<or> j + n' = q" by auto
      with that have len: "j + n' < length rows" by auto
      have "fst (rows ! j) \<le> fst (rows ! (j + n'))"
        using sorted len by (intro sorted_keys) simp_all
      moreover have "fst (rows ! (j + n')) \<le> fst (rows ! q)"
        using sorted le that by (intro sorted_keys) simp_all
      ultimately have "fst (rows ! j) = fst (rows ! (j + n'))" using eq by simp
      with len fstop show False by blast
    qed
  next
    assume "q < j + n'"
    with that have "1 \<le> q - j \<and> q - j < n'" by auto
    with frun have "fst (rows ! (j + (q - j))) = fst (rows ! j)" by blast
    with that show "fst (rows ! q) = fst (rows ! j)" by simp
  qed
  have below: "fst (rows ! q) = fst (rows ! j) \<longleftrightarrow> j - q < m'" if "q < j" for q
  proof
    assume eq: "fst (rows ! q) = fst (rows ! j)"
    show "j - q < m'"
    proof (rule ccontr)
      assume "\<not> j - q < m'"
      then have le: "m' \<le> j - q" by simp
      then have mj: "m' \<le> j" by simp
      have "fst (rows ! q) \<le> fst (rows ! (j - m'))"
        using sorted le j that by (intro sorted_keys) simp_all
      moreover have "fst (rows ! (j - m')) \<le> fst (rows ! j)"
        using sorted j by (intro sorted_keys) simp_all
      ultimately have "fst (rows ! j) = fst (rows ! (j - m'))" using eq by simp
      with mj bstop show False by blast
    qed
  next
    assume "j - q < m'"
    with that have "1 \<le> j - q \<and> j - q < m'" by auto
    with brun have "fst (rows ! (j - (j - q))) = fst (rows ! j)" by blast
    with that show "fst (rows ! q) = fst (rows ! j)" by simp
  qed
  show "set (map (\<lambda>k. j + k) [1..<n'] @ map (\<lambda>k. j - k) [1..<m']) = set (neighbours rows j)"
  proof (intro set_eqI iffI)
    fix q assume "q \<in> set (map (\<lambda>k. j + k) [1..<n'] @ map (\<lambda>k. j - k) [1..<m'])"
    then have "q \<in> (\<lambda>k. j + k) ` {1..<n'} \<or> q \<in> (\<lambda>k. j - k) ` {1..<m'}"
      by (simp only: set_append set_map set_upt Un_iff)
    then consider k where "q = j + k" "1 \<le> k" "k < n'" | k where "q = j - k" "1 \<le> k" "k < m'"
    proof (elim disjE imageE)
      fix k assume "q = j + k" "k \<in> {1..<n'}"
      then show ?thesis using that(1) [of k] by simp
    next
      fix k assume "q = j - k" "k \<in> {1..<m'}"
      then show ?thesis using that(2) [of k] by simp
    qed
    then show "q \<in> set (neighbours rows j)"
    proof cases
      case 1
      with frun have "j + k < length rows \<and> fst (rows ! (j + k)) = fst (rows ! j)" by blast
      with 1 show ?thesis by (simp add: neighbours_def)
    next
      case 2
      with brun have "k \<le> j \<and> fst (rows ! (j - k)) = fst (rows ! j)" by blast
      with 2 j show ?thesis by (auto simp: neighbours_def)
    qed
  next
    fix q assume "q \<in> set (neighbours rows j)"
    then have q: "q < length rows" "q \<noteq> j" "fst (rows ! q) = fst (rows ! j)"
      by (simp_all add: neighbours_def)
    show "q \<in> set (map (\<lambda>k. j + k) [1..<n'] @ map (\<lambda>k. j - k) [1..<m'])"
    proof (cases "j < q")
      case True
      with q above have "q < j + n'" by blast
      with True have "q = j + (q - j)" "1 \<le> q - j" "q - j < n'" by auto
      then have "q \<in> (\<lambda>k. j + k) ` set [1..<n']" by (intro image_eqI [where x = "q - j"]) simp_all
      then show ?thesis by simp
    next
      case False
      with q have lt: "q < j" by simp
      with q below have "j - q < m'" by blast
      with lt have "q = j - (j - q)" "1 \<le> j - q" "j - q < m'" by auto
      then have "q \<in> (\<lambda>k. j - k) ` set [1..<m']" by (intro image_eqI [where x = "j - q"]) simp_all
      then show ?thesis by simp
    qed
  qed
qed

lemma distinct_neighbours: "distinct (neighbours rows j)"
  by (simp add: neighbours_def)

lemma scaling_factor_eq_spec:
  assumes sorted: "sorted (map fst rows)" and j: "j < length rows"
  shows "scaling_factor rows unit_pa j = spec_scaling_factor rows unit_pa j"
proof -
  obtain n' e1 where f: "forwards rows unit_pa j 1 (Some 0) = (n', e1)" by fastforce
  obtain m' e2 where b: "backwards rows unit_pa j 1 e1 = (m', e2)" by fastforce
  let ?c = "contribution unit_pa j"
  let ?L = "map (\<lambda>k. j + k) [1..<n'] @ map (\<lambda>k. j - k) [1..<m']"
  from forwards_spec [OF f] have
    n1: "1 \<le> n'" and
    frun: "\<forall>k. 1 \<le> k \<and> k < n' \<longrightarrow> j + k < length rows \<and> fst (rows ! (j + k)) = fst (rows ! j)" and
    fstop: "\<not> (j + n' < length rows \<and> fst (rows ! j) = fst (rows ! (j + n')))" and
    e1: "e1 = nan_add (Some 0) (nan_sum (map (\<lambda>k. ?c (j + k)) [1..<n']))"
    by blast+
  from backwards_spec [OF b] have
    m1: "1 \<le> m'" and
    brun: "\<forall>k. 1 \<le> k \<and> k < m' \<longrightarrow> k \<le> j \<and> fst (rows ! (j - k)) = fst (rows ! j)" and
    bstop: "\<not> (m' \<le> j \<and> fst (rows ! j) = fst (rows ! (j - m')))" and
    e2: "e2 = nan_add e1 (nan_sum (map (\<lambda>k. ?c (j - k)) [1..<m']))"
    by blast+
  have dist: "distinct ?L" and sets: "set ?L = set (neighbours rows j)"
    using scan_indices [OF sorted j n1 m1 frun fstop brun bstop] by blast+
  have "e2 = nan_sum (map ?c ?L)"
    using e1 e2 by (simp add: nan_sum_append comp_def)
  also have "\<dots> = nan_sum (map ?c (neighbours rows j))"
    using dist distinct_neighbours sets by (rule nan_sum_same_set)
  also have "map ?c (neighbours rows j) =
      map (\<lambda>k. squared_dot (unit_pa ! j) (unit_pa ! k)) (neighbours rows j)"
    by (rule map_cong) (simp_all add: contribution_squared_dot)
  finally have e2': "e2 = nan_sum (map (\<lambda>k. squared_dot (unit_pa ! j) (unit_pa ! k)) (neighbours rows j))" .
  have "length ?L = length (neighbours rows j)"
    using dist distinct_neighbours sets by (metis distinct_card)
  then have len: "m' + n' - 2 = length (neighbours rows j)" using n1 m1 by simp
  then have empty: "\<not> (n' \<noteq> 1 \<or> m' \<noteq> 1) \<longleftrightarrow> neighbours rows j = []" using n1 m1 by auto
  have "scaling_factor rows unit_pa j =
      (if n' \<noteq> 1 \<or> m' \<noteq> 1 then nan_add (Some 1) (nan_div e2 (Some (real (m' + n' - 2))))
       else Some 1)"
    unfolding scaling_factor_def f prod.case b ..
  then show ?thesis
    unfolding spec_scaling_factor_def using e2' len empty by auto
qed


lemma central_atoms_angles_nth:
  "i < length coords \<Longrightarrow>
   central_atoms_angles coords angle_list ! i = sort_key fst (rows_around (int i) 0 angle_list)"
  by (simp add: central_atoms_angles_def)

lemma central_atoms_angles_sorted:
  "i < length coords \<Longrightarrow> sorted (map fst (central_atoms_angles coords angle_list ! i))"
  by (simp add: central_atoms_angles_nth)

text \<open>
  Claim C4. For a row \<open>j\<close> of the rows around a central atom \<open>i\<close> (an angle and one of
  its two flanking bonds), the scaling factor the loops derive is 1 plus the mean, over
  the other rows with the same first atom (the other angles around \<open>i\<close> that share the
  flanking bond), of the squared dot product of the two rows' projection vectors; with no
  such row it is exactly 1, and nothing is divided by zero. (Where one of the vectors
  involved is \<^verbatim>\<open>nan\<close>, so are the mean and the factor.)
\<close>

theorem scaling_factor_is_one_plus_mean:
  assumes i: "i < length coords"
    and rows: "rows = central_atoms_angles coords angle_list ! i"
    and j: "j < length rows"
  shows "scaling_factor rows unit_pa j =
     (if neighbours rows j = [] then Some 1
      else nan_add (Some 1)
             (nan_div (nan_sum (map (\<lambda>k. squared_dot (unit_pa ! j) (unit_pa ! k)) (neighbours rows j)))
                (Some (real (length (neighbours rows j))))))"
proof -
  have "sorted (map fst rows)" unfolding rows using i by (rule central_atoms_angles_sorted)
  then have "scaling_factor rows unit_pa j = spec_scaling_factor rows unit_pa j"
    using j by (rule scaling_factor_eq_spec)
  then show ?thesis by (simp only: spec_scaling_factor_def)
qed

lemma upt_4: "[0..<4] = [0, 1, 2, 3]"
  by (simp add: upt_conv_Cons)

lemma central_atoms_angles_star:
  "central_atoms_angles star star_angles = [star_rows, [], [], []]"
  by (simp add: central_atoms_angles_def star_def star_angles_def star_rows_def upt_4)

lemma unit_pa_all_angles_star:
  "unit_pa_all_angles star [star_rows, [], [], []] = Inr [star_unit_pa, [], [], []]"
  by (simp add: unit_pa_all_angles_def star_def star_rows_def star_unit_pa_def u_pa_from_angles_def
      vector_along_bond_def py_index_def vsub_def normalise_def linalg_norm_def dot_def
      unit_vector_n_def cross_def Let_def)

lemma neighbours_star:
  "neighbours star_rows 0 = [1]" "neighbours star_rows 1 = [0]"
  "neighbours star_rows 2 = []" "neighbours star_rows 3 = []"
  by (simp_all add: neighbours_def star_rows_def upt_4)

text \<open>
  Claim C4 on a central atom with three neighbours of which two angles are listed: the
  row of the shared bond has one neighbouring row and the factor 2, a row of an unshared
  bond has none and the factor 1.
\<close>

theorem scaling_factor_is_one_plus_mean_witness:
  "neighbours star_rows 0 = [1] \<and> scaling_factor star_rows star_unit_pa 0 = Some 2 \<and>
   neighbours star_rows 2 = [] \<and> scaling_factor star_rows star_unit_pa 2 = Some 1"
proof -
  have i: "0 < length star" by (simp add: star_def)
  have rows: "star_rows = central_atoms_angles star star_angles ! 0"
    by (simp add: central_atoms_angles_star)
  have j0: "0 < length star_rows" and j2: "2 < length star_rows" by (simp_all add: star_rows_def)
  have "(if neighbours star_rows 0 = [] then Some 1
      else nan_add (Some 1)
             (nan_div (nan_sum (map (\<lambda>k. squared_dot (star_unit_pa ! 0) (star_unit_pa ! k)) (neighbours star_rows 0)))
                (Some (real (length (neighbours star_rows 0)))))) = Some 2"
    by (simp add: neighbours_star star_unit_pa_def squared_dot_def nan_dot_def dot_def nan_div_def)
  then have "scaling_factor star_rows star_unit_pa 0 = Some 2"
    by (simp only: scaling_factor_is_one_plus_mean [OF i rows j0, of star_unit_pa])
  moreover have "scaling_factor star_rows star_unit_pa 2 = Some 1"
    using scaling_factor_is_one_plus_mean [OF i rows j2, of star_unit_pa]
    by (simp add: neighbours_star)
  ultimately show ?thesis by (simp add: neighbours_star)
qed

lemma neighbours_star_Suc: "neighbours star_rows (Suc 0) = [0]"
  using neighbours_star(2) by simp

lemma spec_scaling_factor_star:
  "spec_scaling_factor star_rows star_unit_pa 0 = Some 2"
  "spec_scaling_factor star_rows star_unit_pa (Suc 0) = Some 2"
  "spec_scaling_factor star_rows star_unit_pa 2 = Some 1"
  "spec_scaling_factor star_rows star_unit_pa 3 = Some 1"
  by (simp_all add: spec_scaling_factor_def neighbours_star neighbours_star_Suc
      star_unit_pa_def squared_dot_def nan_dot_def dot_def nan_div_def)

lemma scaling_factor_star:
  "scaling_factor star_rows star_unit_pa 0 = Some 2"
  "scaling_factor star_rows star_unit_pa (Suc 0) = Some 2"
  "scaling_factor star_rows star_unit_pa 2 = Some 1"
  "scaling_factor star_rows star_unit_pa 3 = Some 1"
proof -
  have s: "sorted (map fst star_rows)" by (simp add: star_rows_def)
  have l: "0 < length star_rows" "Suc 0 < length star_rows" "2 < length star_rows" "3 < length star_rows"
    by (simp_all add: star_rows_def)
  show "scaling_factor star_rows star_unit_pa 0 = Some 2"
    by (simp only: scaling_factor_eq_spec [OF s l(1)] spec_scaling_factor_star)
  show "scaling_factor star_rows star_unit_pa (Suc 0) = Some 2"
    by (simp only: scaling_factor_eq_spec [OF s l(2)] spec_scaling_factor_star)
  show "scaling_factor star_rows star_unit_pa 2 = Some 1"
    by (simp only: scaling_factor_eq_spec [OF s l(3)] spec_scaling_factor_star)
  show "scaling_factor star_rows star_unit_pa 3 = Some 1"
    by (simp only: scaling_factor_eq_spec [OF s l(4)] spec_scaling_factor_star)
qed

lemma scaling_factor_all_angles_star:
  "scaling_factor_all_angles [star_rows, [], [], []] [star_unit_pa, [], [], []] =
     [[(Some 2, 0), (Some 2, 1), (Some 1, 0), (Some 1, 1)], [], [], []]"
proof -
  have "length star_rows = 4" by (simp add: star_rows_def)
  then have "scaling_factors_around star_rows star_unit_pa = [(Some 2, 0), (Some 2, 1), (Some 1, 0), (Some 1, 1)]"
    by (simp add: scaling_factors_around_def upt_4 scaling_factor_star) (simp add: star_rows_def)
  then show ?thesis
    by (simp add: scaling_factor_all_angles_def upt_4 scaling_factors_around_def)
qed

text \<open>
  Claim C2 fails where two angles have different scaling factors. Around atom 0 the
  rows of angle 0 have the factors 2 (bond to atom 1, shared with angle 1) and 1 (bond to
  atom 2); those of angle 1 have 2 and 1 too. All entries of
  \<^verbatim>\<open>scaling_factors_angles_list\<close> are one list object, to which the four factors are
  appended in row order \<open>2, 2, 1, 1\<close>; every angle reads its first two entries, so
  \<^verbatim>\<open>force_constant_angle\<close> is called with \<open>(2, 2)\<close> for angle 0, not with its own \<open>(2, 1)\<close>.
\<close>

theorem shared_scaling_factors:
  "central_atoms_angles star star_angles = [star_rows, [], [], []] \<and>
   scaling_factor_all_angles [star_rows, [], [], []] [star_unit_pa, [], [], []] =
     [[(Some 2, 0), (Some 2, 1), (Some 1, 0), (Some 1, 1)], [], [], []] \<and>
   map fst (filter (\<lambda>sf. snd sf = 0) [(Some 2, 0), (Some 2, 1), (Some 1, 0), (Some (1::real), 1::nat)]) =
     [Some 2, Some 1] \<and>
   bind_result (scaling_factors_angles_list star star_angles) (\<lambda>st. scalings_at st 0) = Inr (Some 2, Some 2) \<and>
   bind_result (scaling_factors_angles_list star star_angles) (\<lambda>st. scalings_at st 1) = Inr (Some 2, Some 2)"
proof -
  have "bind_result (scaling_factors_angles_list star star_angles) (\<lambda>st. scalings_at st 0) = Inr (Some 2, Some 2)"
    by (simp add: scaling_factors_angles_list_def central_atoms_angles_star unit_pa_all_angles_star
        scaling_factor_all_angles_star Let_def)
       (simp add: star_angles_def repeated_empty_list_def append_at_def scalings_at_def Let_def)
  moreover
  have "bind_result (scaling_factors_angles_list star star_angles) (\<lambda>st. scalings_at st 1) = Inr (Some 2, Some 2)"
    by (simp add: scaling_factors_angles_list_def central_atoms_angles_star unit_pa_all_angles_star
        scaling_factor_all_angles_star Let_def)
       (simp add: star_angles_def repeated_empty_list_def append_at_def scalings_at_def Let_def)
  ultimately show ?thesis
    using central_atoms_angles_star scaling_factor_all_angles_star by simp
qed

end
